theory Spec2Isabelle
  imports Main "HOL-Library.Word"
begin

section \<open>StateStinger: mutation strategies, target adapter and fuzzing engine\<close>

text \<open>
  A shallow embedding of the Go packages \<open>engine\<close> (the four mutators and the
  \<open>FuzzEngine\<close>) and \<open>cosmossdk\<close> (the simulated target, \<open>ExecuteFuzz\<close>).
  Go's \<open>[]byte\<close> inputs are lists of 8-bit words, Go's \<open>int\<close> counters are integers
  (no counter of the engine can reach \<open>2 ^ 63\<close>: each grows by one per round and the
  round count is itself an \<open>int\<close>), an \<open>error\<close> is its message or \<open>None\<close> for
  \<open>nil\<close>, and a \<open>*FuzzResult\<close> is an option.
\<close>

subsection \<open>Bytes, text and panics\<close>

type_synonym byte = "8 word"

text \<open>
  The output of the target is a \<open>[]byte\<close> that the validators only compare, as text,
  with two fixed strings: it is modelled as a string, \<open>None\<close> being the \<open>nil\<close> slice.
\<close>

type_synonym outbytes = "string option"
type_synonym err = "string option"

text \<open>
  The one panic the code can reach is that of \<open>rand.Intn\<close> for an argument that is not
  positive. Every index into a slice is in range by the check or the draw before it:
  \<open>ExecuteFuzz\<close> tests the length first, and the other indices are drawn by
  \<open>Intn (len s)\<close>.
\<close>

datatype panic =
    IntnNonPositive      \<comment> \<open>\<open>rand.Intn\<close> called with \<open>n \<le> 0\<close>\<close>

text \<open>\<open>fmt.Sprintf("%d", n)\<close>: the decimal digits of an integer.\<close>

definition digit_char :: "nat \<Rightarrow> char" where
  "digit_char d = ''0123456789'' ! d"

fun string_of_nat :: "nat \<Rightarrow> string" where
  "string_of_nat n =
     (if n < 10 then [digit_char n]
      else string_of_nat (n div 10) @ [digit_char (n mod 10)])"

declare string_of_nat.simps [simp del]

definition string_of_int :: "int \<Rightarrow> string" where
  "string_of_int i = (if i < 0 then CHR ''-'' # string_of_nat (nat (- i)) else string_of_nat (nat i))"

subsection \<open>The randomness stream\<close>

text \<open>
  \<open>math/rand\<close> is Go's standard library, not code of this repository. One
  \<open>*rand.Rand\<close> is created by the engine and shared by all mutators. It is modelled as
  a tape of raw draws and a cursor: \<open>Intn n\<close> consumes one draw and reduces it into
  \<open>[0, n)\<close>, \<open>Read\<close> fills \<open>k\<close> bytes from the next \<open>k\<close> draws. Every sequence of
  results that a generator can return to a sequence of calls is the behaviour of some tape,
  so a statement proved for all tapes holds for the generator of every seed.
  \<open>Intn\<close> panics in Go when \<open>n \<le> 0\<close>: the callers below that pass a computed
  argument check it first and return the panic.
\<close>

record rng =
  tape :: "nat \<Rightarrow> nat"
  cursor :: nat

definition Intn :: "nat \<Rightarrow> rng \<Rightarrow> nat \<times> rng" where
  "Intn n r = (tape r (cursor r) mod n, r\<lparr>cursor := cursor r + 1\<rparr>)"

definition Read :: "nat \<Rightarrow> rng \<Rightarrow> byte list \<times> rng" where
  "Read k r = (map (\<lambda>i. of_nat (tape r (cursor r + i))) [0..<k], r\<lparr>cursor := cursor r + k\<rparr>)"

subsection \<open>Verdicts and summaries\<close>

text \<open>
  \<open>FuzzResult.Input\<close> is a slice. Only the stateful validator sets it, to the slice
  \<open>m.currentState\<close> itself. Its type is a parameter of the record: the contents (a
  \<open>byte list\<close>) where only the bytes matter, and a reference into a store of backing
  arrays where the sharing of the array matters (the subsection on slices below).
\<close>

record 'b FuzzResult =
  ID :: string
  Input :: "'b option"
  ErrorMessage :: string
  Failed :: bool
  StateInconsistency :: bool
  ConsensusFailure :: bool
  Crashed :: bool

text \<open>A Go composite literal leaves the fields it does not name at their zero value.\<close>

definition FuzzResult0 :: "'b FuzzResult" where
  "FuzzResult0 = \<lparr>ID = [], Input = None, ErrorMessage = [], Failed = False,
     StateInconsistency = False, ConsensusFailure = False, Crashed = False\<rparr>"

subsection \<open>The validators of the four mutators\<close>

text \<open>
  \<open>now\<close> is the reading of \<open>time.Now().UnixNano()\<close> at the call. The test
  \<open>output != nil && len(output) > 0\<close> is \<open>nonempty\<close>.
\<close>

definition nonempty :: "outbytes \<Rightarrow> bool" where
  "nonempty out = (case out of None \<Rightarrow> False | Some s \<Rightarrow> length s > 0)"

definition RandomTxMutator_ValidateOutput ::
  "int \<Rightarrow> outbytes \<Rightarrow> err \<Rightarrow> 'b FuzzResult option" where
  "RandomTxMutator_ValidateOutput now out e =
     (if e \<noteq> None \<and> the e \<noteq> ''invalid arguments'' \<and> the e \<noteq> ''permission denied'' then
        Some (FuzzResult0\<lparr>ID := ''random_tx_'' @ string_of_int now, Failed := True,
                ErrorMessage := the e, Crashed := True\<rparr>)
      else if nonempty out \<and> the out = ''state_inconsistent'' then
        Some (FuzzResult0\<lparr>ID := ''random_tx_'' @ string_of_int now, Failed := True,
                StateInconsistency := True, ErrorMessage := ''State inconsistency detected''\<rparr>)
      else if nonempty out \<and> the out = ''consensus_failure'' then
        Some (FuzzResult0\<lparr>ID := ''random_tx_'' @ string_of_int now, Failed := True,
                ConsensusFailure := True, ErrorMessage := ''Consensus failure detected''\<rparr>)
      else None)"

definition BoundaryValueMutator_ValidateOutput ::
  "int \<Rightarrow> outbytes \<Rightarrow> err \<Rightarrow> 'b FuzzResult option" where
  "BoundaryValueMutator_ValidateOutput now out e =
     (if e \<noteq> None \<and> the e \<noteq> ''invalid arguments'' \<and> the e \<noteq> ''permission denied'' then
        Some (FuzzResult0\<lparr>ID := ''boundary_'' @ string_of_int now, Failed := True,
                ErrorMessage := the e, Crashed := True\<rparr>)
      else if nonempty out \<and> the out = ''state_inconsistent'' then
        Some (FuzzResult0\<lparr>ID := ''boundary_'' @ string_of_int now, Failed := True,
                StateInconsistency := True,
                ErrorMessage := ''State inconsistency detected with boundary value''\<rparr>)
      else if nonempty out \<and> the out = ''consensus_failure'' then
        Some (FuzzResult0\<lparr>ID := ''boundary_'' @ string_of_int now, Failed := True,
                ConsensusFailure := True,
                ErrorMessage := ''Consensus failure detected with boundary value''\<rparr>)
      else None)"

text \<open>
  The stateful validator looks at the output first and at the error last, and attaches
  the mutator's \<open>currentState\<close> to every verdict.
\<close>

definition StatefulMutator_ValidateOutput ::
  "'b \<Rightarrow> int \<Rightarrow> outbytes \<Rightarrow> err \<Rightarrow> 'b FuzzResult option" where
  "StatefulMutator_ValidateOutput currentState now out e =
     (if nonempty out \<and> the out = ''state_inconsistent'' then
        Some (FuzzResult0\<lparr>ID := ''stateful_'' @ string_of_int now, Failed := True,
                StateInconsistency := True,
                ErrorMessage := ''State transition inconsistency detected'',
                Input := Some currentState\<rparr>)
      else if nonempty out \<and> the out = ''consensus_failure'' then
        Some (FuzzResult0\<lparr>ID := ''stateful_'' @ string_of_int now, Failed := True,
                ConsensusFailure := True,
                ErrorMessage := ''Consensus failure in state transition sequence'',
                Input := Some currentState\<rparr>)
      else if e \<noteq> None \<and> the e \<noteq> ''invalid arguments'' \<and> the e \<noteq> ''permission denied'' then
        Some (FuzzResult0\<lparr>ID := ''stateful_'' @ string_of_int now, Failed := True,
                ErrorMessage := ''Unexpected error in state sequence: '' @ the e,
                Crashed := True, Input := Some currentState\<rparr>)
      else None)"

definition SpecialCasesMutator_ValidateOutput ::
  "int \<Rightarrow> outbytes \<Rightarrow> err \<Rightarrow> 'b FuzzResult option" where
  "SpecialCasesMutator_ValidateOutput now out e =
     (if e \<noteq> None \<and> the e \<noteq> ''invalid arguments'' \<and> the e \<noteq> ''permission denied'' then
        Some (FuzzResult0\<lparr>ID := ''special_'' @ string_of_int now, Failed := True,
                ErrorMessage := ''Special case triggered error: '' @ the e, Crashed := True\<rparr>)
      else if nonempty out \<and> the out = ''state_inconsistent'' then
        Some (FuzzResult0\<lparr>ID := ''special_'' @ string_of_int now, Failed := True,
                StateInconsistency := True,
                ErrorMessage := ''Special case triggered state inconsistency''\<rparr>)
      else if nonempty out \<and> the out = ''consensus_failure'' then
        Some (FuzzResult0\<lparr>ID := ''special_'' @ string_of_int now, Failed := True,
                ConsensusFailure := True,
                ErrorMessage := ''Special case triggered consensus failure''\<rparr>)
      else None)"

subsection \<open>The generators of the four mutators\<close>

text \<open>
  Each generator takes the shared randomness stream and returns it advanced. The
  mutators hold no other state, but for \<open>StatefulMutator.currentState\<close>.
\<close>

definition RandomTxMutator_GenerateFuzzInput :: "rng \<Rightarrow> byte list \<times> rng" where
  "RandomTxMutator_GenerateFuzzInput r =
     (let (n, r1) = Intn 4080 r;
          len = 16 + n;
          (input, r2) = Read len r1
      in (input, r2))"

text \<open>
  \<open>binary.LittleEndian.PutUint64(b[off : off + 8], v)\<close>: byte \<open>i\<close> of the window is
  \<open>byte(v >> (8 * i))\<close>. Both callers pass a window of a 16-byte buffer.
\<close>

definition PutUint64 :: "nat \<Rightarrow> 64 word \<Rightarrow> byte list \<Rightarrow> byte list" where
  "PutUint64 off v b = fold (\<lambda>i buf. buf[off + i := ucast (drop_bit (8 * i) v)]) [0..<8] b"

definition BoundaryValueMutator_GenerateFuzzInput :: "rng \<Rightarrow> byte list \<times> rng" where
  "BoundaryValueMutator_GenerateFuzzInput r =
     (let (testCase, r1) = Intn 6 r in
      if testCase = 0 then ([], r1)
      else if testCase = 1 then
        (let (b, r2) = Intn 256 r1 in ([of_nat b], r2))
      else if testCase = 2 then
        (PutUint64 8 0xFFFFFFFFFFFFFFFF (PutUint64 0 0xFFFFFFFFFFFFFFFF (replicate 16 0)), r1)
      else if testCase = 3 then
        (let (n, r2) = Intn 100 r1; len = 16 + n in (replicate len 0, r2))
      else if testCase = 4 then
        (PutUint64 0 0x8000000000000000 (replicate 16 0), r1)
      else if testCase = 5 then
        (let (n, r2) = Intn 5 r1; len = 1024 * 1024 * (1 + n) in Read len r2)
      else ([], r1))"

text \<open>
  The stateful generator returns the input, the new \<open>currentState\<close> and the stream.
  \<open>input[0]\<close> is in range: the operation byte was appended first.
\<close>

definition StatefulMutator_GenerateFuzzInput ::
  "byte list \<Rightarrow> rng \<Rightarrow> byte list \<times> byte list \<times> rng" where
  "StatefulMutator_GenerateFuzzInput currentState r =
     (let (op, r1) = Intn 4 r;
          opType = (of_nat op :: byte);
          input = [] @ [opType];
          (header, r2) = Read 4 r1;
          input = input @ header;
          input = (if length currentState > 0 then input @ currentState else input);
          (n, r3) = Intn 92 r2;
          extraLen = 8 + n;
          (extra, r4) = Read extraLen r3;
          input = input @ extra;
          currentState = currentState @ [input ! 0];
          currentState = (if length currentState > 64
                          then drop (length currentState - 64) currentState
                          else currentState)
      in (input, currentState, r4))"

text \<open>The corpus of \<open>NewSpecialCasesMutator\<close>.\<close>

definition specialCases :: "byte list list" where
  "specialCases =
     [[0x1, 0x0, 0x0, 0x0, 0xAA, 0xBB, 0xCC, 0xDD],
      [0x2, 0xFF, 0xFF, 0xFF, 0xFF, 0x0, 0x0, 0x0],
      [0x3, 0x1, 0x0, 0x0, 0x0, 0x1, 0x0, 0x0, 0x0],
      [0x4, 0xF0, 0xF0, 0xF0, 0xF0, 0x0, 0x0, 0x0, 0x0],
      [0x5, 0x1, 0x0, 0x0, 0x0, 0xFF, 0xFF, 0xFF, 0xFF],
      [0x6, 0xFF, 0xFF, 0xFF, 0xFF, 0xFF, 0xFF, 0xFF, 0xFF],
      [0x7, 0xA, 0xB, 0xC, 0xD, 0x1, 0x0, 0x0, 0x0]]"

text \<open>Go's \<open>copy(dst, src)\<close> overwrites the first \<open>min (len dst) (len src)\<close> bytes.\<close>

definition copy_bytes :: "byte list \<Rightarrow> byte list \<Rightarrow> byte list" where
  "copy_bytes dst src =
     take (min (length dst) (length src)) src @ drop (min (length dst) (length src)) dst"

text \<open>The loop \<open>for i := 0; i < mutations; i++\<close> of the corpus generator.\<close>

function mutate_loop :: "nat \<Rightarrow> nat \<Rightarrow> byte list \<Rightarrow> rng \<Rightarrow> panic + (byte list \<times> rng)" where
  "mutate_loop i mutations baseCase r =
     (if i < mutations then
        (if length baseCase = 0 then Inl IntnNonPositive
         else
           (let (pos, r1) = Intn (length baseCase) r;
                (v, r2) = Intn 256 r1
            in mutate_loop (i + 1) mutations (baseCase[pos := of_nat v]) r2))
      else Inr (baseCase, r))"
  by pat_completeness auto
termination
  by (relation "measure (\<lambda>(i, mutations, baseCase, r). mutations - i)") auto

declare mutate_loop.simps [simp del]

text \<open>
  The corpus generator up to the padding: \<open>baseCase\<close> as it is when the padding is
  drawn. In the mutating branch the length of the buffer and the bytes copied into it come
  from two separate draws.
\<close>

definition SpecialCasesMutator_baseCase ::
  "byte list list \<Rightarrow> rng \<Rightarrow> panic + (byte list \<times> rng)" where
  "SpecialCasesMutator_baseCase cases r =
     (let (p, r1) = Intn 100 r;
          useRaw = (p < 75)
      in if useRaw then
           (if length cases = 0 then Inl IntnNonPositive
            else (let (k, r2) = Intn (length cases) r1 in Inr (cases ! k, r2)))
         else if length cases = 0 then Inl IntnNonPositive
         else
           (let (a, r2) = Intn (length cases) r1;
                baseCase = replicate (length (cases ! a)) 0;
                (b, r3) = Intn (length cases) r2;
                baseCase = copy_bytes baseCase (cases ! b);
                (m, r4) = Intn 5 r3;
                mutations = 1 + m
            in mutate_loop 0 mutations baseCase r4))"

definition SpecialCasesMutator_GenerateFuzzInput ::
  "byte list list \<Rightarrow> rng \<Rightarrow> panic + (byte list \<times> rng)" where
  "SpecialCasesMutator_GenerateFuzzInput cases r =
     (case SpecialCasesMutator_baseCase cases r of
        Inl p \<Rightarrow> Inl p
      | Inr (baseCase, r1) \<Rightarrow>
          (let (paddingLen, r2) = Intn 100 r1;
               (padding, r3) = Read paddingLen r2
           in Inr (baseCase @ padding, r3)))"

subsection \<open>The \<open>StateMutator\<close> interface\<close>

datatype StateMutator =
    RandomTxMutator
  | BoundaryValueMutator
  | StatefulMutator (currentState_of: "byte list")
  | SpecialCasesMutator (cases_of: "byte list list") (index_of: int)

definition NewRandomTxMutator :: StateMutator where
  "NewRandomTxMutator = RandomTxMutator"

definition NewBoundaryValueMutator :: StateMutator where
  "NewBoundaryValueMutator = BoundaryValueMutator"

definition NewStatefulMutator :: StateMutator where
  "NewStatefulMutator = StatefulMutator []"

definition NewSpecialCasesMutator :: StateMutator where
  "NewSpecialCasesMutator = SpecialCasesMutator specialCases 0"

fun StateMutator_Name :: "StateMutator \<Rightarrow> string" where
  "StateMutator_Name RandomTxMutator = ''RandomTxMutator''"
| "StateMutator_Name BoundaryValueMutator = ''BoundaryValueMutator''"
| "StateMutator_Name (StatefulMutator s) = ''StatefulMutator''"
| "StateMutator_Name (SpecialCasesMutator cs i) = ''SpecialCasesMutator''"

fun GenerateFuzzInput :: "StateMutator \<Rightarrow> rng \<Rightarrow> panic + (byte list \<times> StateMutator \<times> rng)" where
  "GenerateFuzzInput RandomTxMutator r =
     (let (input, r1) = RandomTxMutator_GenerateFuzzInput r in Inr (input, RandomTxMutator, r1))"
| "GenerateFuzzInput BoundaryValueMutator r =
     (let (input, r1) = BoundaryValueMutator_GenerateFuzzInput r
      in Inr (input, BoundaryValueMutator, r1))"
| "GenerateFuzzInput (StatefulMutator s) r =
     (let (input, s1, r1) = StatefulMutator_GenerateFuzzInput s r
      in Inr (input, StatefulMutator s1, r1))"
| "GenerateFuzzInput (SpecialCasesMutator cs i) r =
     (case SpecialCasesMutator_GenerateFuzzInput cs r of
        Inl p \<Rightarrow> Inl p
      | Inr (input, r1) \<Rightarrow> Inr (input, SpecialCasesMutator cs i, r1))"

fun ValidateOutput ::
  "StateMutator \<Rightarrow> int \<Rightarrow> outbytes \<Rightarrow> err \<Rightarrow> byte list FuzzResult option" where
  "ValidateOutput RandomTxMutator now out e = RandomTxMutator_ValidateOutput now out e"
| "ValidateOutput BoundaryValueMutator now out e = BoundaryValueMutator_ValidateOutput now out e"
| "ValidateOutput (StatefulMutator s) now out e = StatefulMutator_ValidateOutput s now out e"
| "ValidateOutput (SpecialCasesMutator cs i) now out e = SpecialCasesMutator_ValidateOutput now out e"

subsection \<open>The simulated target\<close>

record CosmosModule =
  Path :: string
  Name :: string
  Handlers :: "string list"
  StateTypes :: "string list"

definition CosmosModule_ExecuteFuzz :: "CosmosModule \<Rightarrow> byte list \<Rightarrow> outbytes \<times> err" where
  "CosmosModule_ExecuteFuzz m input =
     (if length input < 4 then (None, Some ''input too short'')
      else
        (let handlerIndex = unat (input ! 0) mod (length (Handlers m) + 1) in
         if handlerIndex = length (Handlers m) then
           (None, Some ''simulated error: invalid handler'')
         else
           (let outcome = (input ! 1) mod 5 in
            if outcome = 0 then (Some ''success'', None)
            else if outcome = 1 then (None, Some ''invalid arguments'')
            else if outcome = 2 then (None, Some ''permission denied'')
            else if outcome = 3 then (Some ''state_inconsistent'', None)
            else if outcome = 4 then (Some ''consensus_failure'', None)
            else (Some ''unknown'', None))))"

subsection \<open>The engine\<close>

record Config =
  TargetPath :: string
  ModuleName :: string
  FuzzCount :: int
  Seed :: int
  OutputDir :: string
  Verbose :: bool
  StateMutator :: "string list"
  SpecialCases :: bool

record FuzzSummary =
  TotalTests :: int
  Failed :: int
  StateInconsistencies :: int
  ConsensusFailures :: int
  Crashes :: int

definition FuzzSummary0 :: FuzzSummary where
  "FuzzSummary0 = \<lparr>TotalTests = 0, Failed = 0, StateInconsistencies = 0,
     ConsensusFailures = 0, Crashes = 0\<rparr>"

record FuzzEngine =
  config :: Config
  rand :: rng
  mutators :: "StateMutator list"
  results :: "byte list FuzzResult list"
  summary :: FuzzSummary

definition registerDefaultMutators :: "FuzzEngine \<Rightarrow> FuzzEngine" where
  "registerDefaultMutators f =
     (let f = f\<lparr>mutators := mutators f @ [NewRandomTxMutator]\<rparr>;
          f = f\<lparr>mutators := mutators f @ [NewBoundaryValueMutator]\<rparr>;
          f = f\<lparr>mutators := mutators f @ [NewStatefulMutator]\<rparr>
      in if SpecialCases (config f)
         then f\<lparr>mutators := mutators f @ [NewSpecialCasesMutator]\<rparr>
         else f)"

text \<open>
  \<open>NewSource\<close> is \<open>rand.New(rand.NewSource(seed))\<close>, the generator as a function of
  its seed, and \<open>t0\<close> the reading of \<open>time.Now().UnixNano()\<close> at construction.
\<close>

definition NewFuzzerEngine :: "(int \<Rightarrow> rng) \<Rightarrow> int \<Rightarrow> Config \<Rightarrow> FuzzEngine" where
  "NewFuzzerEngine NewSource t0 cfg =
     (let seed = (if Seed cfg = 0 then t0 else Seed cfg);
          rng = NewSource seed;
          engine = \<lparr>config = cfg, rand = rng, mutators = [], results = [],
                     summary = FuzzSummary0\<rparr>
      in registerDefaultMutators engine)"

text \<open>
  \<open>recordFailure\<close> writes the verdict to a file of the output directory and logs; it
  reads \<open>config\<close> and updates no field of the engine, so \<open>trackResult\<close> is the
  update of the counters.
\<close>

definition trackResult :: "byte list FuzzResult \<Rightarrow> FuzzEngine \<Rightarrow> FuzzEngine" where
  "trackResult result f =
     (if FuzzResult.Failed result then
        (let s = summary f;
             s = s\<lparr>Failed := Failed s + 1\<rparr>;
             s = (if StateInconsistency result
                  then s\<lparr>StateInconsistencies := StateInconsistencies s + 1\<rparr> else s);
             s = (if ConsensusFailure result
                  then s\<lparr>ConsensusFailures := ConsensusFailures s + 1\<rparr> else s);
             s = (if Crashed result then s\<lparr>Crashes := Crashes s + 1\<rparr> else s)
         in f\<lparr>summary := s\<rparr>)
      else f)"

text \<open>
  One round of the loop of \<open>Run\<close>, for a target \<open>exec\<close>. Besides the engine it returns
  what the round did: the index of the mutator chosen, the input generated, the answer of
  the target and the verdict.
\<close>

record round =
  choice :: nat
  generated :: "byte list"
  answer :: "outbytes \<times> err"
  verdict :: "byte list FuzzResult option"

definition FuzzEngine_round ::
  "(byte list \<Rightarrow> outbytes \<times> err) \<Rightarrow> int \<Rightarrow> FuzzEngine \<Rightarrow> panic + (round \<times> FuzzEngine)" where
  "FuzzEngine_round exec now f =
     (if length (mutators f) = 0 then Inl IntnNonPositive
      else
        (let (k, r1) = Intn (length (mutators f)) (rand f);
             mutator = mutators f ! k
         in case GenerateFuzzInput mutator r1 of
              Inl p \<Rightarrow> Inl p
            | Inr (input, mutator1, r2) \<Rightarrow>
                (let f = f\<lparr>rand := r2, mutators := (mutators f)[k := mutator1]\<rparr>;
                     (out, e) = exec input;
                     result = ValidateOutput mutator1 now out e;
                     f = (case result of None \<Rightarrow> f | Some res \<Rightarrow> trackResult res f);
                     f = f\<lparr>summary := (summary f)\<lparr>TotalTests := TotalTests (summary f) + 1\<rparr>\<rparr>
                 in Inr (\<lparr>choice = k, generated = input, answer = (out, e),
                           verdict = result\<rparr>, f))))"

text \<open>
  The loop \<open>for i := 0; i < f.config.FuzzCount; i++\<close>, with the bound as \<open>n\<close> (no
  round writes \<open>config\<close>); \<open>clock i\<close> is the reading of the clock in round \<open>i\<close>.
  A panic of a round ends the run.
\<close>

function FuzzEngine_loop ::
  "(byte list \<Rightarrow> outbytes \<times> err) \<Rightarrow> (int \<Rightarrow> int) \<Rightarrow> int \<Rightarrow> int \<Rightarrow> FuzzEngine
     \<Rightarrow> panic + (round list \<times> FuzzEngine)" where
  "FuzzEngine_loop exec clock i n f =
     (if i < n then
        (case FuzzEngine_round exec (clock i) f of
           Inl p \<Rightarrow> Inl p
         | Inr (rd, f1) \<Rightarrow>
             (case FuzzEngine_loop exec clock (i + 1) n f1 of
                Inl p \<Rightarrow> Inl p
              | Inr (rds, f2) \<Rightarrow> Inr (rd # rds, f2)))
      else Inr ([], f))"
  by pat_completeness auto
termination
  by (relation "measure (\<lambda>(exec, clock, i, n, f). nat (n - i))") auto

declare FuzzEngine_loop.simps [simp del]

datatype fatal =
    LoadFailed string     \<comment> \<open>\<open>log.Fatalf("Failed to load target module: ...")\<close>\<close>
  | Panicked panic

text \<open>
  \<open>Run\<close>. \<open>LoadCosmosModule\<close> inspects the file system and is a parameter (the
  repository's test replaces it by a stub in the same way).
\<close>

definition FuzzEngine_Run_rounds ::
  "(string \<Rightarrow> string \<Rightarrow> string + CosmosModule) \<Rightarrow> (int \<Rightarrow> int) \<Rightarrow> FuzzEngine
     \<Rightarrow> fatal + (round list \<times> FuzzEngine)" where
  "FuzzEngine_Run_rounds LoadCosmosModule clock f =
     (case LoadCosmosModule (TargetPath (config f)) (ModuleName (config f)) of
        Inl e \<Rightarrow> Inl (LoadFailed e)
      | Inr targetModule \<Rightarrow>
          (case FuzzEngine_loop (CosmosModule_ExecuteFuzz targetModule) clock 0
                  (FuzzCount (config f)) f of
             Inl p \<Rightarrow> Inl (Panicked p)
           | Inr x \<Rightarrow> Inr x))"

definition FuzzEngine_Run ::
  "(string \<Rightarrow> string \<Rightarrow> string + CosmosModule) \<Rightarrow> (int \<Rightarrow> int) \<Rightarrow> FuzzEngine
     \<Rightarrow> fatal + FuzzSummary" where
  "FuzzEngine_Run LoadCosmosModule clock f =
     (case FuzzEngine_Run_rounds LoadCosmosModule clock f of
        Inl e \<Rightarrow> Inl e
      | Inr (rds, f1) \<Rightarrow> Inr (summary f1))"

subsection \<open>Slices over shared backing arrays\<close>

text \<open>
  The stateful validator stores the slice \<open>m.currentState\<close> in the verdict while the
  generator goes on appending to it. To see what the two share, a slice is modelled as Go
  has it: a window (\<open>offset\<close>, \<open>len\<close>, \<open>cap\<close>) on a backing array of a store.
  \<open>append\<close> writes in place while the capacity lasts and moves the bytes to a fresh
  array otherwise; the capacity of the fresh array is chosen by Go's runtime and is at
  least what is needed: \<open>grow\<close> stands for that choice.
\<close>

record slice =
  array_id :: nat
  offset :: nat
  len :: nat
  cap :: nat

record store =
  arrays :: "nat \<Rightarrow> byte list"
  lim :: nat

definition slice_bytes :: "store \<Rightarrow> slice \<Rightarrow> byte list" where
  "slice_bytes h s = take (len s) (drop (offset s) (arrays h (array_id s)))"

text \<open>\<open>make([]byte, n)\<close>\<close>

definition make_slice :: "nat \<Rightarrow> store \<Rightarrow> slice \<times> store" where
  "make_slice n h =
     (\<lparr>array_id = lim h, offset = 0, len = n, cap = n\<rparr>,
      h\<lparr>arrays := (arrays h)(lim h := replicate n 0), lim := lim h + 1\<rparr>)"

text \<open>\<open>append(s, x)\<close> for one byte\<close>

definition append_byte :: "(nat \<Rightarrow> nat) \<Rightarrow> slice \<Rightarrow> byte \<Rightarrow> store \<Rightarrow> slice \<times> store" where
  "append_byte grow s x h =
     (if len s < cap s then
        (s\<lparr>len := len s + 1\<rparr>,
         h\<lparr>arrays := (arrays h)(array_id s := (arrays h (array_id s))[offset s + len s := x])\<rparr>)
      else
        (let c = max (len s + 1) (grow (cap s))
         in (\<lparr>array_id = lim h, offset = 0, len = len s + 1, cap = c\<rparr>,
             h\<lparr>arrays := (arrays h)(lim h := slice_bytes h s @ [x] @ replicate (c - (len s + 1)) 0),
               lim := lim h + 1\<rparr>)))"

text \<open>\<open>s[k:]\<close>, for \<open>k \<le> len s\<close>\<close>

definition reslice_from :: "nat \<Rightarrow> slice \<Rightarrow> slice" where
  "reslice_from k s = s\<lparr>offset := offset s + k, len := len s - k, cap := cap s - k\<rparr>"

text \<open>
  \<open>NewStatefulMutator\<close>, \<open>GenerateFuzzInput\<close> and \<open>ValidateOutput\<close> of the stateful
  mutator over the store. The input is assembled by \<open>append\<close> from a \<open>nil\<close> slice, in
  arrays of its own: it is kept as a value. The validator is
  \<open>StatefulMutator_ValidateOutput\<close> above, applied to the slice.
\<close>

definition NewStatefulMutator_mem :: "store \<Rightarrow> slice \<times> store" where
  "NewStatefulMutator_mem h = make_slice 0 h"

definition StatefulMutator_GenerateFuzzInput_mem ::
  "(nat \<Rightarrow> nat) \<Rightarrow> slice \<Rightarrow> store \<Rightarrow> rng \<Rightarrow> byte list \<times> slice \<times> store \<times> rng" where
  "StatefulMutator_GenerateFuzzInput_mem grow currentState h r =
     (let (op, r1) = Intn 4 r;
          opType = (of_nat op :: byte);
          input = [] @ [opType];
          (header, r2) = Read 4 r1;
          input = input @ header;
          input = (if len currentState > 0 then input @ slice_bytes h currentState else input);
          (n, r3) = Intn 92 r2;
          extraLen = 8 + n;
          (extra, r4) = Read extraLen r3;
          input = input @ extra;
          (currentState, h) = append_byte grow currentState (input ! 0) h;
          currentState = (if len currentState > 64
                          then reslice_from (len currentState - 64) currentState
                          else currentState)
      in (input, currentState, h, r4))"

text \<open>
  A sequence of calls of the generator. Between two calls of it the engine and the other
  mutators draw from the shared stream, so each call gets a stream state of its own.
\<close>

fun StatefulMutator_calls :: "rng list \<Rightarrow> byte list \<Rightarrow> byte list" where
  "StatefulMutator_calls [] currentState = currentState"
| "StatefulMutator_calls (r # rs) currentState =
     (let (input, currentState1, r1) = StatefulMutator_GenerateFuzzInput currentState r
      in StatefulMutator_calls rs currentState1)"

fun StatefulMutator_calls_mem ::
  "(nat \<Rightarrow> nat) \<Rightarrow> rng list \<Rightarrow> slice \<Rightarrow> store \<Rightarrow> slice \<times> store" where
  "StatefulMutator_calls_mem grow [] currentState h = (currentState, h)"
| "StatefulMutator_calls_mem grow (r # rs) currentState h =
     (let (input, currentState1, h1, r1) = StatefulMutator_GenerateFuzzInput_mem grow currentState h r
      in StatefulMutator_calls_mem grow rs currentState1 h1)"

subsection \<open>The six shapes of a boundary input\<close>

text \<open>
  The shapes as the specification lists them, each a predicate on an input; they are
  compared with the generator below. \<open>le_bytes64\<close> is the little-endian encoding of a
  64-bit word, written independently of \<open>PutUint64\<close>.
\<close>

definition le_bytes64 :: "64 word \<Rightarrow> byte list" where
  "le_bytes64 w = map (\<lambda>i. ucast (drop_bit (8 * i) w)) [0..<8]"

definition MiB :: nat where
  "MiB = 1024 * 1024"

definition shape_empty :: "byte list \<Rightarrow> bool" where
  "shape_empty xs = (length xs = 0)"

definition shape_single :: "byte list \<Rightarrow> bool" where
  "shape_single xs = (length xs = 1)"

definition shape_all_ones :: "byte list \<Rightarrow> bool" where
  "shape_all_ones xs =
     (length xs = 16 \<and> xs = le_bytes64 0xFFFFFFFFFFFFFFFF @ le_bytes64 0xFFFFFFFFFFFFFFFF)"

definition shape_zeros :: "byte list \<Rightarrow> bool" where
  "shape_zeros xs = (16 \<le> length xs \<and> length xs \<le> 115 \<and> xs = replicate (length xs) 0)"

definition shape_min_int64 :: "byte list \<Rightarrow> bool" where
  "shape_min_int64 xs =
     (length xs = 16 \<and> take 8 xs = le_bytes64 0x8000000000000000 \<and> drop 8 xs = replicate 8 0)"

definition shape_large :: "byte list \<Rightarrow> bool" where
  "shape_large xs = (1 * MiB \<le> length xs \<and> length xs \<le> 5 * MiB)"

definition shapes_matched :: "byte list \<Rightarrow> nat" where
  "shapes_matched xs =
     length (filter (\<lambda>b. b)
       [shape_empty xs, shape_single xs, shape_all_ones xs, shape_zeros xs,
        shape_min_int64 xs, shape_large xs])"

subsection \<open>Predicates and observations used by the properties\<close>

text \<open>A verdict with exactly one of its three specific flags set.\<close>

definition one_flag :: "'b FuzzResult \<Rightarrow> bool" where
  "one_flag v = (length (filter (\<lambda>b. b) [StateInconsistency v, ConsensusFailure v, Crashed v]) = 1)"

text \<open>A summary whose failure count is the sum of the three specific counts.\<close>

definition balanced :: "FuzzSummary \<Rightarrow> bool" where
  "balanced s = (Failed s = StateInconsistencies s + ConsensusFailures s + Crashes s)"

text \<open>
  A mutator whose generator cannot panic: a corpus that is not empty and has no empty
  entry. An engine is ready when it has a mutator and all its mutators are such.
\<close>

fun generator_total :: "StateMutator \<Rightarrow> bool" where
  "generator_total (SpecialCasesMutator cs i) = (cs \<noteq> [] \<and> [] \<notin> set cs)"
| "generator_total m = True"

definition engine_ready :: "FuzzEngine \<Rightarrow> bool" where
  "engine_ready f = (mutators f \<noteq> [] \<and> list_all generator_total (mutators f))"

text \<open>A round in which the target answered \<open>success\<close> with a \<open>nil\<close> error.\<close>

definition succeeded :: "round \<Rightarrow> bool" where
  "succeeded rd = (answer rd = (Some ''success'', None))"

text \<open>
  What a run shows of its choices: the sequence of (index of the mutator chosen, input
  generated), or the fatal error that ended it.
\<close>

definition trace_of :: "round list \<Rightarrow> (nat \<times> byte list) list" where
  "trace_of rds = map (\<lambda>rd. (choice rd, generated rd)) rds"

definition run_trace :: "'e + (round list \<times> FuzzEngine) \<Rightarrow> 'e + (nat \<times> byte list) list" where
  "run_trace res = (case res of Inl e \<Rightarrow> Inl e | Inr (rds, f) \<Rightarrow> Inr (trace_of rds))"

text \<open>
  Inputs for the worked runs: a configuration with seed 42, a loader that always
  succeeds with one handler (as the stub of the repository's engine test does), and a
  generator whose every raw draw is \<open>d\<close>.
\<close>

definition demo_config :: "int \<Rightarrow> Config" where
  "demo_config n = \<lparr>TargetPath = ''x/bank'', ModuleName = ''bank'', FuzzCount = n, Seed = 42,
     OutputDir = ''./fuzz_results'', Verbose = False, StateMutator = [], SpecialCases = True\<rparr>"

definition demo_load :: "string \<Rightarrow> string \<Rightarrow> string + CosmosModule" where
  "demo_load path name = Inr \<lparr>Path = path, Name = name, Handlers = [''MsgSend''], StateTypes = []\<rparr>"

definition demo_source :: "nat \<Rightarrow> int \<Rightarrow> rng" where
  "demo_source d seed = \<lparr>tape = (\<lambda>i. d), cursor = 0\<rparr>"

subsection \<open>Point mutations of a corpus entry\<close>

text \<open>
  The specification's description of what precedes the padding of a corpus input: a
  corpus entry verbatim, or a copy of an entry with up to five bytes changed.
  \<open>differing\<close> counts the positions at which two byte sequences differ;
  \<open>point_mutated k e b\<close> says that \<open>b\<close> is \<open>e\<close> with at most \<open>k\<close> bytes changed
  (none, for verbatim).
\<close>

definition differing :: "byte list \<Rightarrow> byte list \<Rightarrow> nat" where
  "differing xs ys = length (filter (\<lambda>(x, y). x \<noteq> y) (zip xs ys))"

definition point_mutated :: "nat \<Rightarrow> byte list \<Rightarrow> byte list \<Rightarrow> bool" where
  "point_mutated k e b = (length b = length e \<and> differing e b \<le> k)"

definition corpus_derived :: "byte list list \<Rightarrow> byte list \<Rightarrow> bool" where
  "corpus_derived cs b = list_ex (\<lambda>e. point_mutated 5 e b) cs"

text \<open>
  A state of the randomness stream for the corpus generator: the draws are 75 (mutate),
  0 (the entry that gives the length), 2 (the entry that is copied), 0 (one mutation),
  2 (its offset), 9 (its byte) and 0 (no padding).
\<close>

definition slip_rng :: rng where
  "slip_rng = \<lparr>tape = (\<lambda>i. if i = 0 then 75 else if i = 2 \<or> i = 4 then 2
                          else if i = 5 then 9 else 0), cursor = 0\<rparr>"

subsection \<open>Well-formed slices and worked stores\<close>

text \<open>
  A slice of a store is well formed when its array is allocated and its window lies
  inside it. \<open>ends_before v s\<close>: \<open>v\<close> is on another array than \<open>s\<close>, or ends no later
  than \<open>s\<close> does.
\<close>

definition slice_ok :: "store \<Rightarrow> slice \<Rightarrow> bool" where
  "slice_ok h s =
     (array_id s < lim h \<and> len s \<le> cap s \<and> offset s + cap s \<le> length (arrays h (array_id s)))"

definition ends_before :: "slice \<Rightarrow> slice \<Rightarrow> bool" where
  "ends_before v s = (array_id v \<noteq> array_id s \<or> offset v + len v \<le> offset s + len s)"

text \<open>
  For the worked example: the capacities Go's runtime gives a small byte slice that grows
  by one byte (8, then doubling), the store with nothing allocated, the stateful mutator
  after one call of its generator, and after one more call.
\<close>

definition go_grow :: "nat \<Rightarrow> nat" where
  "go_grow c = (if c = 0 then 8 else 2 * c)"

definition empty_store :: store where
  "empty_store = \<lparr>arrays = (\<lambda>a. []), lim = 0\<rparr>"

definition demo_history :: "slice \<times> store" where
  "demo_history =
     (case NewStatefulMutator_mem empty_store of
        (c0, h1) \<Rightarrow> StatefulMutator_calls_mem go_grow [demo_source 1 0] c0 h1)"

definition demo_later :: "slice \<times> store" where
  "demo_later =
     (case demo_history of
        (cur, h) \<Rightarrow> StatefulMutator_calls_mem go_grow [demo_source 1 0] cur h)"

section \<open>Properties\<close>

subsection \<open>The randomness stream\<close>

lemma Intn_lt: "0 < n \<Longrightarrow> fst (Intn n r) < n"
  by (simp add: Intn_def)

lemma Read_length: "length (fst (Read k r)) = k"
  by (simp add: Read_def)

subsection \<open>Validators: errors and outcomes\<close>

text \<open>
  Claim C1, as the code has it. An error whose message is neither
  \<open>invalid arguments\<close> nor \<open>permission denied\<close> makes every validator return a
  verdict with \<open>Failed\<close> set. For the random, boundary and corpus validators the verdict
  has \<open>Crashed\<close> set whatever the output is. The stateful validator looks at the output
  first: its verdict has \<open>Crashed\<close> set exactly when the output is neither
  \<open>state_inconsistent\<close> nor \<open>consensus_failure\<close>; otherwise it is the outcome
  verdict, with \<open>StateInconsistency\<close> set exactly when the output is
  \<open>state_inconsistent\<close> and \<open>ConsensusFailure\<close> exactly when it is
  \<open>consensus_failure\<close>.
\<close>

theorem validate_crash_precedence:
  assumes "e = Some msg" and "msg \<noteq> ''invalid arguments''" and "msg \<noteq> ''permission denied''"
  shows "(\<exists>v. RandomTxMutator_ValidateOutput now out e = Some (v :: 'b FuzzResult)
              \<and> Crashed v \<and> FuzzResult.Failed v)
       \<and> (\<exists>v. BoundaryValueMutator_ValidateOutput now out e = Some (v :: 'b FuzzResult)
              \<and> Crashed v \<and> FuzzResult.Failed v)
       \<and> (\<exists>v. SpecialCasesMutator_ValidateOutput now out e = Some (v :: 'b FuzzResult)
              \<and> Crashed v \<and> FuzzResult.Failed v)
       \<and> (\<exists>v. StatefulMutator_ValidateOutput (cs :: 'b) now out e = Some v
              \<and> FuzzResult.Failed v
              \<and> Crashed v = (out \<noteq> Some ''state_inconsistent'' \<and> out \<noteq> Some ''consensus_failure'')
              \<and> StateInconsistency v = (out = Some ''state_inconsistent'')
              \<and> ConsensusFailure v = (out = Some ''consensus_failure''))"
  using assms
  by (auto simp: RandomTxMutator_ValidateOutput_def BoundaryValueMutator_ValidateOutput_def
        SpecialCasesMutator_ValidateOutput_def StatefulMutator_ValidateOutput_def
        nonempty_def FuzzResult0_def split: option.splits)

theorem validate_crash_precedence_witness:
  "''boom'' \<noteq> ''invalid arguments'' \<and> ''boom'' \<noteq> ''permission denied''
   \<and> (\<exists>v. RandomTxMutator_ValidateOutput 0 (Some ''state_inconsistent'') (Some ''boom'')
             = Some (v :: byte list FuzzResult) \<and> Crashed v \<and> FuzzResult.Failed v)
   \<and> (\<exists>v. BoundaryValueMutator_ValidateOutput 0 (Some ''state_inconsistent'') (Some ''boom'')
             = Some (v :: byte list FuzzResult) \<and> Crashed v \<and> FuzzResult.Failed v)
   \<and> (\<exists>v. SpecialCasesMutator_ValidateOutput 0 (Some ''state_inconsistent'') (Some ''boom'')
             = Some (v :: byte list FuzzResult) \<and> Crashed v \<and> FuzzResult.Failed v)
   \<and> (\<exists>v. StatefulMutator_ValidateOutput ([] :: byte list) 0 (Some ''state_inconsistent'')
             (Some ''boom'') = Some v \<and> FuzzResult.Failed v \<and> \<not> Crashed v
             \<and> StateInconsistency v \<and> \<not> ConsensusFailure v)"
  using validate_crash_precedence
          [of "Some ''boom''" "''boom''" 0 "Some ''state_inconsistent''" "[] :: byte list"]
  by simp

text \<open>
  Claim C1 as stated fails for the stateful validator: with the output
  \<open>state_inconsistent\<close> and the error \<open>boom\<close> its verdict is the state inconsistency,
  and \<open>Crashed\<close> is not set.
\<close>

theorem stateful_outcome_before_crash:
  "''boom'' \<noteq> ''invalid arguments'' \<and> ''boom'' \<noteq> ''permission denied'' \<and>
   StatefulMutator_ValidateOutput ([] :: byte list) 0 (Some ''state_inconsistent'') (Some ''boom'')
     = Some \<lparr>ID = ''stateful_0'', Input = Some [],
              ErrorMessage = ''State transition inconsistency detected'',
              Failed = True, StateInconsistency = True, ConsensusFailure = False,
              Crashed = False\<rparr>"
  by (simp add: StatefulMutator_ValidateOutput_def nonempty_def FuzzResult0_def
        string_of_int_def string_of_nat.simps digit_char_def)

subsection \<open>The history of the stateful mutator\<close>

lemma Stateful_step:
  "StatefulMutator_GenerateFuzzInput cs r = (input, cs1, r1) \<Longrightarrow>
   input \<noteq> [] \<and> input ! 0 = of_nat (fst (Intn 4 r)) \<and>
   cs1 = (if 64 < length cs + 1 then drop (length cs + 1 - 64) (cs @ [input ! 0])
          else cs @ [input ! 0])"
  by (auto simp: StatefulMutator_GenerateFuzzInput_def Let_def split: prod.splits if_splits)

lemma Stateful_step_length:
  "StatefulMutator_GenerateFuzzInput cs r = (input, cs1, r1) \<Longrightarrow>
   length cs \<le> 64 \<Longrightarrow> length cs1 = min (length cs + 1) 64"
  by (drule Stateful_step) (auto split: if_splits)

lemma Stateful_calls_length:
  "length cs \<le> 64 \<Longrightarrow> length (StatefulMutator_calls rs cs) = min (length cs + length rs) 64"
proof (induction rs arbitrary: cs)
  case Nil
  then show ?case by simp
next
  case (Cons r rs)
  obtain input cs1 r1 where g: "StatefulMutator_GenerateFuzzInput cs r = (input, cs1, r1)"
    by (cases "StatefulMutator_GenerateFuzzInput cs r") auto
  from Stateful_step_length [OF g Cons.prems] have l: "length cs1 = min (length cs + 1) 64" .
  then have "length cs1 \<le> 64" by simp
  from Cons.IH [OF this] l show ?case using g by auto
qed

text \<open>
  Claim C2. The history is empty at construction; a call of the generator appends the
  first byte of the new input and keeps the last 64 bytes when that makes more than 64;
  after any sequence of calls, whatever the state of the randomness stream at each of them,
  the length of the history is the minimum of the number of calls and 64.
\<close>

theorem stateful_history_length:
  "currentState_of NewStatefulMutator = []
   \<and> (case StatefulMutator_GenerateFuzzInput cs r of
        (input, cs1, r1) \<Rightarrow>
          cs1 = (if 64 < length (cs @ [input ! 0])
                 then drop (length (cs @ [input ! 0]) - 64) (cs @ [input ! 0])
                 else cs @ [input ! 0]))
   \<and> length (StatefulMutator_calls rs (currentState_of NewStatefulMutator)) = min (length rs) 64"
proof -
  have a: "currentState_of NewStatefulMutator = []"
    by (simp add: NewStatefulMutator_def)
  obtain input cs1 r1 where g: "StatefulMutator_GenerateFuzzInput cs r = (input, cs1, r1)"
    by (cases "StatefulMutator_GenerateFuzzInput cs r") auto
  from Stateful_step [OF g]
  have b: "cs1 = (if 64 < length (cs @ [input ! 0])
                  then drop (length (cs @ [input ! 0]) - 64) (cs @ [input ! 0])
                  else cs @ [input ! 0])"
    by simp
  have c: "length (StatefulMutator_calls rs []) = min (length rs) 64"
    using Stateful_calls_length [of "[]" rs] by simp
  show ?thesis using a b c g by simp
qed

subsection \<open>The shapes of the boundary generator\<close>

lemma le_bytes64_ones: "le_bytes64 0xFFFFFFFFFFFFFFFF = replicate 8 0xFF"
  by code_simp

lemma le_bytes64_min: "le_bytes64 0x8000000000000000 = [0, 0, 0, 0, 0, 0, 0, 0x80]"
  by code_simp

lemma PutUint64_ones:
  "PutUint64 8 0xFFFFFFFFFFFFFFFF (PutUint64 0 0xFFFFFFFFFFFFFFFF (replicate 16 0))
     = replicate 16 0xFF"
  by code_simp

lemma PutUint64_min:
  "PutUint64 0 0x8000000000000000 (replicate 16 0)
     = [0, 0, 0, 0, 0, 0, 0, 0x80, 0, 0, 0, 0, 0, 0, 0, 0]"
  by code_simp

lemma le_bytes64_ones_twice:
  "le_bytes64 0xFFFFFFFFFFFFFFFF @ le_bytes64 0xFFFFFFFFFFFFFFFF = replicate 16 0xFF"
  by (simp add: le_bytes64_ones flip: replicate_add)

lemma replicate_16: "replicate 16 x = [x, x, x, x, x, x, x, x, x, x, x, x, x, x, x, x]"
  by (simp add: numeral_eq_Suc)

lemma replicate_8: "replicate 8 x = [x, x, x, x, x, x, x, x]"
  by (simp add: numeral_eq_Suc)

lemmas shape_defs =
  shapes_matched_def shape_empty_def shape_single_def shape_all_ones_def shape_zeros_def
  shape_min_int64_def shape_large_def MiB_def

lemma matched_empty: "length xs = 0 \<Longrightarrow> shapes_matched xs = 1"
  by (simp add: shape_defs)

lemma matched_single: "length xs = 1 \<Longrightarrow> shapes_matched xs = 1"
  by (simp add: shape_defs)

lemma matched_ones: "shapes_matched (replicate 16 0xFF) = 1"
  by (simp add: shape_defs le_bytes64_ones_twice le_bytes64_min replicate_16 replicate_8)

lemma matched_min: "shapes_matched [0, 0, 0, 0, 0, 0, 0, 0x80, 0, 0, 0, 0, 0, 0, 0, 0] = 1"
  by (simp add: shape_defs le_bytes64_ones le_bytes64_min replicate_16 replicate_8)

lemma matched_zeros:
  assumes n: "n < 100"
  shows "shapes_matched (replicate (16 + n) 0) = 1"
proof -
  have a: "\<not> shape_all_ones (replicate (16 + n) 0)"
  proof
    assume "shape_all_ones (replicate (16 + n) 0)"
    then have "replicate (16 + n) (0::byte) = replicate 16 (0xFF::byte)"
      by (simp add: shape_all_ones_def le_bytes64_ones_twice)
    then have "set (replicate (16 + n) (0::byte)) = set (replicate 16 (0xFF::byte))"
      by simp
    then show False by simp
  qed
  have b: "\<not> shape_min_int64 (replicate (16 + n) 0)"
  proof
    assume "shape_min_int64 (replicate (16 + n) 0)"
    then have "take 8 (replicate (16 + n) (0::byte)) ! 7 = [0, 0, 0, 0, 0, 0, 0, 0x80::byte] ! 7"
      by (simp add: shape_min_int64_def le_bytes64_min)
    then show False by simp
  qed
  show ?thesis using n a b
    by (simp add: shapes_matched_def shape_empty_def shape_single_def
        shape_zeros_def shape_large_def MiB_def)
qed

lemma matched_large:
  "1048576 \<le> length xs \<Longrightarrow> length xs \<le> 5242880 \<Longrightarrow> shapes_matched xs = 1"
  by (auto simp add: shape_defs)

text \<open>
  Claim C6. Every input of the boundary generator matches exactly one of the six
  shapes: empty; a single byte; 16 bytes, two all-ones 64-bit words in little-endian
  (\<open>0xFF\<close> sixteen times); 16 to 115 zero bytes; 16 bytes, the little-endian encoding of
  \<open>0x8000000000000000\<close> and eight zero bytes; 1 to 5 MiB of bytes.
\<close>

theorem boundary_shapes: "shapes_matched (fst (BoundaryValueMutator_GenerateFuzzInput r)) = 1"
proof -
  obtain t r1 where t: "Intn 6 r = (t, r1)" by (cases "Intn 6 r") auto
  have "t < 6" using Intn_lt [of 6 r] t by simp
  then consider "t = 0" | "t = 1" | "t = 2" | "t = 3" | "t = 4" | "t = 5" by linarith
  then show ?thesis
  proof cases
    case 1
    then show ?thesis using t
      by (simp add: BoundaryValueMutator_GenerateFuzzInput_def matched_empty)
  next
    case 2
    then show ?thesis using t
      by (simp add: BoundaryValueMutator_GenerateFuzzInput_def matched_single split: prod.splits)
  next
    case 3
    then show ?thesis using t
      by (simp add: BoundaryValueMutator_GenerateFuzzInput_def PutUint64_ones matched_ones)
  next
    case 4
    obtain n r2 where n: "Intn 100 r1 = (n, r2)" by (cases "Intn 100 r1") auto
    have "n < 100" using Intn_lt [of 100 r1] n by simp
    then show ?thesis using 4 t n
      by (simp add: BoundaryValueMutator_GenerateFuzzInput_def matched_zeros)
  next
    case 5
    then show ?thesis using t
      by (simp add: BoundaryValueMutator_GenerateFuzzInput_def PutUint64_min matched_min)
  next
    case 6
    obtain n r2 where n: "Intn 5 r1 = (n, r2)" by (cases "Intn 5 r1") auto
    have "n < 5" using Intn_lt [of 5 r1] n by simp
    then have "1048576 \<le> length (fst (Read (1024 * 1024 * (1 + n)) r2))"
      "length (fst (Read (1024 * 1024 * (1 + n)) r2)) \<le> 5242880"
      by (simp_all add: Read_length)
    from matched_large [OF this] show ?thesis using 6 t n
      by (simp add: BoundaryValueMutator_GenerateFuzzInput_def)
  qed
qed

lemma boundary_case_2:
  assumes "fst (Intn 6 r) = 2"
  shows "fst (BoundaryValueMutator_GenerateFuzzInput r) = replicate 16 0xFF"
proof -
  obtain r1 where "Intn 6 r = (2, r1)" using assms by (cases "Intn 6 r") auto
  then show ?thesis
    by (simp add: BoundaryValueMutator_GenerateFuzzInput_def PutUint64_ones)
qed



subsection \<open>The length of a random input\<close>

lemma RandomTx_length:
  "length (fst (RandomTxMutator_GenerateFuzzInput r)) = 16 + fst (Intn 4080 r)"
  by (simp add: RandomTxMutator_GenerateFuzzInput_def Read_length split: prod.splits)

lemma RandomTx_attains:
  assumes "16 \<le> n" and "n \<le> 4095"
  shows "length (fst (RandomTxMutator_GenerateFuzzInput \<lparr>tape = (\<lambda>i. n - 16), cursor = 0\<rparr>)) = n"
  using assms by (simp add: RandomTx_length Intn_def)

text \<open>
  Claim C5, at the code. The length of a random input is \<open>16 + Intn 4080\<close>: it
  lies between 16 and 4095 for every state of the randomness stream, so the length 4096 of
  the claim is never generated; the largest draw, 4079, gives 4095 bytes.
\<close>

theorem random_length_below_4096:
  "16 \<le> length (fst (RandomTxMutator_GenerateFuzzInput r))
   \<and> length (fst (RandomTxMutator_GenerateFuzzInput r)) \<le> 4095
   \<and> length (fst (RandomTxMutator_GenerateFuzzInput \<lparr>tape = (\<lambda>i. 4079), cursor = 0\<rparr>)) = 4095"
  using Intn_lt [of 4080 r] by (simp add: RandomTx_length) (simp add: Intn_def)

subsection \<open>Inputs too short for the simulated target\<close>

lemma ExecuteFuzz_short:
  "length input < 4 \<Longrightarrow> CosmosModule_ExecuteFuzz m input = (None, Some ''input too short'')"
  by (simp add: CosmosModule_ExecuteFuzz_def)

lemma Boundary_short:
  assumes "fst (Intn 6 r) < 2"
  shows "length (fst (BoundaryValueMutator_GenerateFuzzInput r)) < 4"
proof -
  obtain t r1 where t: "Intn 6 r = (t, r1)" by (cases "Intn 6 r") auto
  with assms have "t = 0 \<or> t = 1" by auto
  then show ?thesis using t
    by (auto simp: BoundaryValueMutator_GenerateFuzzInput_def split: prod.splits)
qed

text \<open>
  Claim C10. For an input of fewer than 4 bytes \<open>ExecuteFuzz\<close> returns a \<open>nil\<close>
  output and the error \<open>input too short\<close>; each of the four validators turns that
  answer into a verdict with \<open>Crashed\<close> set; and when the boundary generator draws its
  case 0 (empty input) or 1 (single byte), the round's verdict is such a crash.
\<close>

theorem short_input_crashes:
  assumes "length input < 4"
  shows "CosmosModule_ExecuteFuzz m input = (None, Some ''input too short'')
     \<and> (\<exists>v. RandomTxMutator_ValidateOutput now None (Some ''input too short'')
               = Some (v :: 'b FuzzResult) \<and> Crashed v)
     \<and> (\<exists>v. BoundaryValueMutator_ValidateOutput now None (Some ''input too short'')
               = Some (v :: 'b FuzzResult) \<and> Crashed v)
     \<and> (\<exists>v. StatefulMutator_ValidateOutput (cs :: 'b) now None (Some ''input too short'')
               = Some v \<and> Crashed v)
     \<and> (\<exists>v. SpecialCasesMutator_ValidateOutput now None (Some ''input too short'')
               = Some (v :: 'b FuzzResult) \<and> Crashed v)
     \<and> (fst (Intn 6 r) < 2 \<longrightarrow>
          (\<exists>v. (case CosmosModule_ExecuteFuzz m (fst (BoundaryValueMutator_GenerateFuzzInput r)) of
                  (out, e) \<Rightarrow> BoundaryValueMutator_ValidateOutput now out e)
                = Some (v :: 'b FuzzResult) \<and> Crashed v \<and> FuzzResult.Failed v))"
proof -
  have a: "CosmosModule_ExecuteFuzz m input = (None, Some ''input too short'')"
    using assms by (rule ExecuteFuzz_short)
  have b: "\<exists>v. RandomTxMutator_ValidateOutput now None (Some ''input too short'')
               = Some (v :: 'b FuzzResult) \<and> Crashed v"
    by (simp add: RandomTxMutator_ValidateOutput_def FuzzResult0_def)
  have c: "\<exists>v. BoundaryValueMutator_ValidateOutput now None (Some ''input too short'')
               = Some (v :: 'b FuzzResult) \<and> Crashed v \<and> FuzzResult.Failed v"
    by (simp add: BoundaryValueMutator_ValidateOutput_def FuzzResult0_def)
  have d: "\<exists>v. StatefulMutator_ValidateOutput (cs :: 'b) now None (Some ''input too short'')
               = Some v \<and> Crashed v"
    by (simp add: StatefulMutator_ValidateOutput_def nonempty_def FuzzResult0_def)
  have e: "\<exists>v. SpecialCasesMutator_ValidateOutput now None (Some ''input too short'')
               = Some (v :: 'b FuzzResult) \<and> Crashed v"
    by (simp add: SpecialCasesMutator_ValidateOutput_def FuzzResult0_def)
  have f: "fst (Intn 6 r) < 2 \<longrightarrow>
          (\<exists>v. (case CosmosModule_ExecuteFuzz m (fst (BoundaryValueMutator_GenerateFuzzInput r)) of
                  (out, e) \<Rightarrow> BoundaryValueMutator_ValidateOutput now out e)
                = Some (v :: 'b FuzzResult) \<and> Crashed v \<and> FuzzResult.Failed v)"
    using c by (auto simp: ExecuteFuzz_short [OF Boundary_short])
  from a b c d e f show ?thesis by blast
qed

theorem short_input_crashes_witness:
  "length ([] :: byte list) < 4
   \<and> fst (Intn 6 \<lparr>tape = (\<lambda>i. 0), cursor = 0\<rparr>) < 2
   \<and> CosmosModule_ExecuteFuzz \<lparr>Path = ''x/bank'', Name = ''bank'', Handlers = [''MsgSend''],
        StateTypes = []\<rparr> [] = (None, Some ''input too short'')
   \<and> (\<exists>v. (case CosmosModule_ExecuteFuzz
                   \<lparr>Path = ''x/bank'', Name = ''bank'', Handlers = [''MsgSend''], StateTypes = []\<rparr>
                   (fst (BoundaryValueMutator_GenerateFuzzInput \<lparr>tape = (\<lambda>i. 0), cursor = 0\<rparr>)) of
               (out, e) \<Rightarrow> BoundaryValueMutator_ValidateOutput 0 out e)
             = Some (v :: byte list FuzzResult) \<and> Crashed v \<and> FuzzResult.Failed v)"
  using short_input_crashes [of "[]" "\<lparr>Path = ''x/bank'', Name = ''bank'', Handlers = [''MsgSend''],
        StateTypes = []\<rparr>" 0 "[] :: byte list" "\<lparr>tape = (\<lambda>i. 0), cursor = 0\<rparr>"]
  by (simp add: Intn_def)

subsection \<open>The engine: one round\<close>

lemma RandomTx_flags:
  "RandomTxMutator_ValidateOutput now out e = Some v \<Longrightarrow> FuzzResult.Failed v \<and> one_flag v"
  by (auto simp: RandomTxMutator_ValidateOutput_def FuzzResult0_def one_flag_def split: if_splits)

lemma Boundary_flags:
  "BoundaryValueMutator_ValidateOutput now out e = Some v \<Longrightarrow> FuzzResult.Failed v \<and> one_flag v"
  by (auto simp: BoundaryValueMutator_ValidateOutput_def FuzzResult0_def one_flag_def split: if_splits)

lemma Stateful_flags:
  "StatefulMutator_ValidateOutput cs now out e = Some v \<Longrightarrow> FuzzResult.Failed v \<and> one_flag v"
  by (auto simp: StatefulMutator_ValidateOutput_def FuzzResult0_def one_flag_def split: if_splits)

lemma Special_flags:
  "SpecialCasesMutator_ValidateOutput now out e = Some v \<Longrightarrow> FuzzResult.Failed v \<and> one_flag v"
  by (auto simp: SpecialCasesMutator_ValidateOutput_def FuzzResult0_def one_flag_def split: if_splits)

lemma ValidateOutput_flags:
  "ValidateOutput m now out e = Some v \<Longrightarrow> FuzzResult.Failed v \<and> one_flag v"
  by (cases m) (simp_all add: RandomTx_flags Boundary_flags Stateful_flags Special_flags)

lemma success_no_verdict: "ValidateOutput m now (Some ''success'') None = None"
  by (cases m)
    (simp_all add: RandomTxMutator_ValidateOutput_def BoundaryValueMutator_ValidateOutput_def
      StatefulMutator_ValidateOutput_def SpecialCasesMutator_ValidateOutput_def nonempty_def)

lemma trackResult_balanced:
  "one_flag v \<Longrightarrow> balanced (summary f) \<Longrightarrow> balanced (summary (trackResult v f))"
  by (auto simp: trackResult_def balanced_def one_flag_def Let_def split: if_splits)

lemma trackResult_frame:
  "mutators (trackResult v f) = mutators f \<and> rand (trackResult v f) = rand f
   \<and> config (trackResult v f) = config f
   \<and> TotalTests (summary (trackResult v f)) = TotalTests (summary f)"
  by (simp add: trackResult_def Let_def)

lemma round_unfold:
  assumes "mutators f \<noteq> []"
    and "Intn (length (mutators f)) (rand f) = (k, r1)"
    and "GenerateFuzzInput (mutators f ! k) r1 = Inr (input, m1, r2)"
    and "exec input = (out, e)"
    and "f0 = f\<lparr>rand := r2, mutators := (mutators f)[k := m1]\<rparr>"
    and "f1 = (case ValidateOutput m1 now out e of None \<Rightarrow> f0 | Some res \<Rightarrow> trackResult res f0)"
  shows "FuzzEngine_round exec now f =
           Inr (\<lparr>choice = k, generated = input, answer = (out, e),
                  verdict = ValidateOutput m1 now out e\<rparr>,
                f1\<lparr>summary := (summary f1)\<lparr>TotalTests := TotalTests (summary f1) + 1\<rparr>\<rparr>)"
  using assms
  by (cases "ValidateOutput m1 now out e") (simp_all add: FuzzEngine_round_def Let_def)

lemma round_Inl:
  assumes "mutators f \<noteq> []"
    and "Intn (length (mutators f)) (rand f) = (k, r1)"
    and "GenerateFuzzInput (mutators f ! k) r1 = Inl p"
  shows "FuzzEngine_round exec now f = Inl p"
  using assms by (simp add: FuzzEngine_round_def)

lemma round_empty: "mutators f = [] \<Longrightarrow> FuzzEngine_round exec now f = Inl IntnNonPositive"
  by (simp add: FuzzEngine_round_def)

lemma round_Inr:
  assumes ne: "mutators f \<noteq> []"
    and k: "Intn (length (mutators f)) (rand f) = (k, r1)"
    and g: "GenerateFuzzInput (mutators f ! k) r1 = Inr (input, m1, r2)"
  shows "\<exists>rd f1. FuzzEngine_round exec now f = Inr (rd, f1)
           \<and> choice rd = k \<and> generated rd = input
           \<and> rand f1 = r2 \<and> mutators f1 = (mutators f)[k := m1]"
proof -
  obtain out e where x: "exec input = (out, e)" by (cases "exec input") auto
  define f0 where "f0 = f\<lparr>rand := r2, mutators := (mutators f)[k := m1]\<rparr>"
  define f1 where
    "f1 = (case ValidateOutput m1 now out e of None \<Rightarrow> f0 | Some res \<Rightarrow> trackResult res f0)"
  have "rand f1 = r2 \<and> mutators f1 = (mutators f)[k := m1]"
    by (simp add: f1_def f0_def trackResult_frame split: option.splits)
  moreover have "FuzzEngine_round exec now f =
           Inr (\<lparr>choice = k, generated = input, answer = (out, e),
                  verdict = ValidateOutput m1 now out e\<rparr>,
                f1\<lparr>summary := (summary f1)\<lparr>TotalTests := TotalTests (summary f1) + 1\<rparr>\<rparr>)"
    using ne k g x f0_def f1_def by (rule round_unfold)
  ultimately show ?thesis by simp
qed

lemma round_balanced:
  assumes "FuzzEngine_round exec now f = Inr (rd, f1)" and "balanced (summary f)"
  shows "balanced (summary f1)"
proof -
  obtain k r1 where k: "Intn (length (mutators f)) (rand f) = (k, r1)"
    by (cases "Intn (length (mutators f)) (rand f)") auto
  from assms(1) k obtain input m1 r2 where
    g: "GenerateFuzzInput (mutators f ! k) r1 = Inr (input, m1, r2)"
    by (auto simp: FuzzEngine_round_def split: if_splits sum.splits)
  obtain out e where x: "exec input = (out, e)" by (cases "exec input") auto
  define f0 where "f0 = f\<lparr>rand := r2, mutators := (mutators f)[k := m1]\<rparr>"
  have b0: "balanced (summary f0)" using assms(2) by (simp add: f0_def)
  show ?thesis
  proof (cases "ValidateOutput m1 now out e")
    case None
    with assms(1) k g x b0 show ?thesis
      by (auto simp: FuzzEngine_round_def f0_def balanced_def Let_def split: if_splits)
  next
    case (Some v)
    from ValidateOutput_flags [OF Some] have "one_flag v" by simp
    from trackResult_balanced [OF this b0] have "balanced (summary (trackResult v f0))" .
    with assms(1) k g x Some show ?thesis
      by (auto simp: FuzzEngine_round_def f0_def balanced_def Let_def split: if_splits)
  qed
qed

subsection \<open>The generators do not panic\<close>

lemma mutate_loop_total:
  "baseCase \<noteq> [] \<Longrightarrow> \<exists>b r1. mutate_loop i mutations baseCase r = Inr (b, r1) \<and> length b = length baseCase"
proof (induction i mutations baseCase r rule: mutate_loop.induct)
  case (1 i mutations baseCase r)
  show ?case
  proof (cases "i < mutations")
    case False
    then show ?thesis by (simp add: mutate_loop.simps)
  next
    case True
    obtain pos r1 where p: "Intn (length baseCase) r = (pos, r1)"
      by (cases "Intn (length baseCase) r") auto
    obtain v r2 where v: "Intn 256 r1 = (v, r2)" by (cases "Intn 256 r1") auto
    have ne: "baseCase[pos := of_nat v] \<noteq> []" using "1.prems" by simp
    from "1.prems" have l: "length baseCase \<noteq> 0" by simp
    from "1.IH" [OF True l p [symmetric] refl v [symmetric] refl ne]
    show ?thesis using True l p v by (subst mutate_loop.simps) auto
  qed
qed

lemma baseCase_total:
  assumes "cs \<noteq> []" and "[] \<notin> set cs"
  shows "\<exists>b r1. SpecialCasesMutator_baseCase cs r = Inr (b, r1)"
proof -
  obtain p r1 where p: "Intn 100 r = (p, r1)" by (cases "Intn 100 r") auto
  show ?thesis
  proof (cases "p < 75")
    case True
    then show ?thesis using p assms
      by (simp add: SpecialCasesMutator_baseCase_def split: prod.splits)
  next
    case False
    obtain a r2 where a: "Intn (length cs) r1 = (a, r2)" by (cases "Intn (length cs) r1") auto
    obtain b r3 where b: "Intn (length cs) r2 = (b, r3)" by (cases "Intn (length cs) r2") auto
    obtain m r4 where m: "Intn 5 r3 = (m, r4)" by (cases "Intn 5 r3") auto
    have "a < length cs" using Intn_lt [of "length cs" r1] a assms by simp
    then have "cs ! a \<in> set cs" by simp
    with assms have "cs ! a \<noteq> []" by metis
    then have "copy_bytes (replicate (length (cs ! a)) 0) (cs ! b) \<noteq> []"
      by (auto simp: copy_bytes_def min_def)
    from mutate_loop_total [OF this, of 0 "1 + m" r4] obtain bc r5 where
      "mutate_loop 0 (1 + m) (copy_bytes (replicate (length (cs ! a)) 0) (cs ! b)) r4
         = Inr (bc, r5)" by blast
    then show ?thesis using False p a b m assms
      by (simp add: SpecialCasesMutator_baseCase_def)
  qed
qed

lemma GenerateFuzzInput_total:
  assumes "generator_total m"
  shows "\<exists>input m1 r1. GenerateFuzzInput m r = Inr (input, m1, r1) \<and> generator_total m1"
proof (cases m)
  case (SpecialCasesMutator cs i)
  with assms have "cs \<noteq> []" "[] \<notin> set cs" by simp_all
  from baseCase_total [OF this] obtain b r1 where
    "SpecialCasesMutator_baseCase cs r = Inr (b, r1)" by blast
  then show ?thesis using SpecialCasesMutator assms
    by (simp add: SpecialCasesMutator_GenerateFuzzInput_def split: prod.splits)
qed (simp_all split: prod.splits)

lemma round_total:
  assumes "engine_ready f"
  shows "\<exists>rd f1. FuzzEngine_round exec now f = Inr (rd, f1) \<and> engine_ready f1
           \<and> TotalTests (summary f1) = TotalTests (summary f) + 1
           \<and> answer rd = exec (generated rd)
           \<and> (succeeded rd \<longrightarrow> Failed (summary f1) = Failed (summary f))"
proof -
  obtain k r1 where k: "Intn (length (mutators f)) (rand f) = (k, r1)"
    by (cases "Intn (length (mutators f)) (rand f)") auto
  from assms have ne: "mutators f \<noteq> []" and all: "list_all generator_total (mutators f)"
    by (simp_all add: engine_ready_def)
  have kl: "k < length (mutators f)" using Intn_lt [of "length (mutators f)" "rand f"] k ne by simp
  with all have "generator_total (mutators f ! k)" by (simp add: list_all_length)
  from GenerateFuzzInput_total [OF this] obtain input m1 r2 where
    g: "GenerateFuzzInput (mutators f ! k) r1 = Inr (input, m1, r2)" and t: "generator_total m1"
    by blast
  obtain out e where x: "exec input = (out, e)" by (cases "exec input") auto
  define f0 where "f0 = f\<lparr>rand := r2, mutators := (mutators f)[k := m1]\<rparr>"
  define f1 where
    "f1 = (case ValidateOutput m1 now out e of None \<Rightarrow> f0 | Some res \<Rightarrow> trackResult res f0)"
  define f2 where "f2 = f1\<lparr>summary := (summary f1)\<lparr>TotalTests := TotalTests (summary f1) + 1\<rparr>\<rparr>"
  define rd where "rd = \<lparr>choice = k, generated = input, answer = (out, e),
                  verdict = ValidateOutput m1 now out e\<rparr>"
  have r: "FuzzEngine_round exec now f = Inr (rd, f2)"
    unfolding rd_def f2_def using ne k g x f0_def f1_def by (rule round_unfold)
  have r0: "engine_ready f0" using ne all t kl
    by (auto simp: f0_def engine_ready_def list_all_length nth_list_update)
  have m1: "mutators f1 = mutators f0" and t1: "TotalTests (summary f1) = TotalTests (summary f0)"
    by (simp_all add: f1_def trackResult_frame split: option.splits)
  have a: "engine_ready f2" using r0 m1 by (simp add: engine_ready_def f2_def)
  have b: "TotalTests (summary f2) = TotalTests (summary f) + 1"
    using t1 by (simp add: f2_def f0_def)
  have c: "succeeded rd \<longrightarrow> Failed (summary f2) = Failed (summary f)"
    by (simp add: succeeded_def rd_def success_no_verdict f2_def f1_def f0_def)
  have d: "answer rd = exec (generated rd)" by (simp add: rd_def x)
  from r a b c d show ?thesis by blast
qed

subsection \<open>The engine: the loop and the run\<close>

lemma New_ready: "engine_ready (NewFuzzerEngine src t0 cfg)"
  by (simp add: NewFuzzerEngine_def registerDefaultMutators_def engine_ready_def Let_def
      NewSpecialCasesMutator_def NewRandomTxMutator_def NewBoundaryValueMutator_def
      NewStatefulMutator_def specialCases_def)

lemma New_summary: "summary (NewFuzzerEngine src t0 cfg) = FuzzSummary0"
  by (simp add: NewFuzzerEngine_def registerDefaultMutators_def Let_def)

lemma New_config: "config (NewFuzzerEngine src t0 cfg) = cfg"
  by (simp add: NewFuzzerEngine_def registerDefaultMutators_def Let_def)

lemma New_seeded:
  "Seed cfg \<noteq> 0 \<Longrightarrow> NewFuzzerEngine src t0 cfg = NewFuzzerEngine src t1 cfg"
  by (simp add: NewFuzzerEngine_def)

lemma loop_balanced:
  "FuzzEngine_loop exec clock i n f = Inr (rds, f1) \<Longrightarrow> balanced (summary f)
     \<Longrightarrow> balanced (summary f1)"
proof (induction exec clock i n f arbitrary: rds f1 rule: FuzzEngine_loop.induct)
  case (1 exec clock i n f)
  show ?case
  proof (cases "i < n")
    case False
    with "1.prems" show ?thesis by (simp add: FuzzEngine_loop.simps)
  next
    case True
    from "1.prems"(1) True obtain rd f' rds' where
      r: "FuzzEngine_round exec (clock i) f = Inr (rd, f')" and
      l: "FuzzEngine_loop exec clock (i + 1) n f' = Inr (rds', f1)"
      by (subst (asm) FuzzEngine_loop.simps) (auto split: sum.splits)
    from round_balanced [OF r "1.prems"(2)] have "balanced (summary f')" .
    from "1.IH" [OF True r refl l this] show ?thesis .
  qed
qed

lemma loop_total:
  "engine_ready f \<Longrightarrow>
   \<exists>rds f1. FuzzEngine_loop exec clock i n f = Inr (rds, f1)
     \<and> int (length rds) = max 0 (n - i)
     \<and> TotalTests (summary f1) = TotalTests (summary f) + max 0 (n - i)
     \<and> list_all (\<lambda>rd. answer rd = exec (generated rd)) rds
     \<and> (list_all succeeded rds \<longrightarrow> Failed (summary f1) = Failed (summary f))"
proof (induction exec clock i n f rule: FuzzEngine_loop.induct)
  case (1 exec clock i n f)
  show ?case
  proof (cases "i < n")
    case False
    then show ?thesis by (simp add: FuzzEngine_loop.simps)
  next
    case True
    from round_total [OF "1.prems"] obtain rd f' where
      r: "FuzzEngine_round exec (clock i) f = Inr (rd, f')" and rdy: "engine_ready f'" and
      t: "TotalTests (summary f') = TotalTests (summary f) + 1" and
      x: "answer rd = exec (generated rd)" and
      s: "succeeded rd \<longrightarrow> Failed (summary f') = Failed (summary f)"
      by blast
    from "1.IH" [OF True r refl rdy] obtain rds f1 where
      l: "FuzzEngine_loop exec clock (i + 1) n f' = Inr (rds, f1)" and
      a: "int (length rds) = max 0 (n - (i + 1))" and
      b: "TotalTests (summary f1) = TotalTests (summary f') + max 0 (n - (i + 1))" and
      y: "list_all (\<lambda>rd. answer rd = exec (generated rd)) rds" and
      c: "list_all succeeded rds \<longrightarrow> Failed (summary f1) = Failed (summary f')"
      by blast
    have "FuzzEngine_loop exec clock i n f = Inr (rd # rds, f1)"
      using True r l by (subst FuzzEngine_loop.simps) simp
    then show ?thesis using True a b c t s x y by auto
  qed
qed

lemma run_trace_Panicked:
  "run_trace (case l of Inl p \<Rightarrow> Inl (Panicked p) | Inr x \<Rightarrow> Inr x)
     = (case run_trace l of Inl p \<Rightarrow> Inl (Panicked p) | Inr t \<Rightarrow> Inr t)"
  by (cases l) (auto simp: run_trace_def)

lemma round_trace:
  assumes rf: "rand f = rand g" and mf: "mutators f = mutators g"
  shows "(\<exists>p. FuzzEngine_round ex1 t1 f = Inl p \<and> FuzzEngine_round ex2 t2 g = Inl p)
       \<or> (\<exists>rd1 f1 rd2 g1. FuzzEngine_round ex1 t1 f = Inr (rd1, f1)
             \<and> FuzzEngine_round ex2 t2 g = Inr (rd2, g1)
             \<and> choice rd1 = choice rd2 \<and> generated rd1 = generated rd2
             \<and> rand f1 = rand g1 \<and> mutators f1 = mutators g1)"
proof (cases "mutators f = []")
  case True
  then show ?thesis using mf by (simp add: round_empty)
next
  case ne: False
  then have ne': "mutators g \<noteq> []" using mf by simp
  obtain k r1 where k: "Intn (length (mutators f)) (rand f) = (k, r1)"
    by (cases "Intn (length (mutators f)) (rand f)") auto
  then have k': "Intn (length (mutators g)) (rand g) = (k, r1)" using rf mf by simp
  show ?thesis
  proof (cases "GenerateFuzzInput (mutators f ! k) r1")
    case (Inl p)
    then have "GenerateFuzzInput (mutators g ! k) r1 = Inl p" using mf by simp
    from round_Inl [OF ne k Inl] round_Inl [OF ne' k' this] show ?thesis by blast
  next
    case (Inr x)
    then obtain input m1 r2 where g1: "GenerateFuzzInput (mutators f ! k) r1 = Inr (input, m1, r2)"
      by (cases x) auto
    then have g2: "GenerateFuzzInput (mutators g ! k) r1 = Inr (input, m1, r2)" using mf by simp
    from round_Inr [OF ne k g1, of ex1 t1] round_Inr [OF ne' k' g2, of ex2 t2]
    have "\<exists>rd1 f1 rd2 g1. FuzzEngine_round ex1 t1 f = Inr (rd1, f1)
             \<and> FuzzEngine_round ex2 t2 g = Inr (rd2, g1)
             \<and> choice rd1 = choice rd2 \<and> generated rd1 = generated rd2
             \<and> rand f1 = rand g1 \<and> mutators f1 = mutators g1"
      using mf by auto
    then show ?thesis ..
  qed
qed

lemma loop_trace:
  "rand f = rand g \<Longrightarrow> mutators f = mutators g \<Longrightarrow>
   run_trace (FuzzEngine_loop ex1 c1 i n f) = run_trace (FuzzEngine_loop ex2 c2 i n g)"
proof (induction ex1 c1 i n f arbitrary: g rule: FuzzEngine_loop.induct)
  case (1 ex1 c1 i n f)
  show ?case
  proof (cases "i < n")
    case False
    then show ?thesis by (simp add: FuzzEngine_loop.simps run_trace_def trace_of_def)
  next
    case True
    from round_trace [OF "1.prems", of ex1 "c1 i" ex2 "c2 i"]
    show ?thesis
    proof (elim disjE exE conjE)
      fix p
      assume "FuzzEngine_round ex1 (c1 i) f = Inl p" "FuzzEngine_round ex2 (c2 i) g = Inl p"
      then show ?thesis using True
        by (simp add: FuzzEngine_loop.simps [of _ _ i] run_trace_def)
    next
      fix rd1 f1 rd2 g1
      assume a: "FuzzEngine_round ex1 (c1 i) f = Inr (rd1, f1)"
        and b: "FuzzEngine_round ex2 (c2 i) g = Inr (rd2, g1)"
        and c: "choice rd1 = choice rd2" "generated rd1 = generated rd2"
        and d: "rand f1 = rand g1" "mutators f1 = mutators g1"
      from "1.IH" [OF True a refl d]
      have "run_trace (FuzzEngine_loop ex1 c1 (i + 1) n f1)
              = run_trace (FuzzEngine_loop ex2 c2 (i + 1) n g1)" .
      then show ?thesis using True a b c
        by (simp add: FuzzEngine_loop.simps [of _ _ i] run_trace_def trace_of_def
            split: sum.splits prod.splits)
    qed
  qed
qed

text \<open>
  Claim C3. With a non-zero seed in the configuration, two constructions and runs of the
  engine with the same configuration, the same generator library and the same loader show
  the same sequence of (mutator chosen, input generated), or end with the same fatal error,
  whatever the clock read at construction (\<open>t1\<close>, \<open>t2\<close>) and in each round
  (\<open>clock1\<close>, \<open>clock2\<close>).
\<close>

theorem run_deterministic:
  assumes "Seed cfg \<noteq> 0"
  shows "run_trace (FuzzEngine_Run_rounds L clock1 (NewFuzzerEngine src t1 cfg))
       = run_trace (FuzzEngine_Run_rounds L clock2 (NewFuzzerEngine src t2 cfg))"
proof -
  have e: "NewFuzzerEngine src t1 cfg = NewFuzzerEngine src t2 cfg"
    using assms by (rule New_seeded)
  show ?thesis
  proof (cases "L (TargetPath cfg) (ModuleName cfg)")
    case (Inl msg)
    then show ?thesis by (simp add: FuzzEngine_Run_rounds_def New_config run_trace_def)
  next
    case (Inr m)
    have "run_trace (FuzzEngine_loop (CosmosModule_ExecuteFuzz m) clock1 0 (FuzzCount cfg)
              (NewFuzzerEngine src t1 cfg))
        = run_trace (FuzzEngine_loop (CosmosModule_ExecuteFuzz m) clock2 0 (FuzzCount cfg)
              (NewFuzzerEngine src t2 cfg))"
      by (rule loop_trace) (simp_all add: e)
    then show ?thesis using Inr
      by (simp add: FuzzEngine_Run_rounds_def New_config run_trace_Panicked)
  qed
qed

theorem run_deterministic_witness:
  "Seed (demo_config 2) \<noteq> 0
   \<and> run_trace (FuzzEngine_Run_rounds demo_load (\<lambda>i. 1000 + i)
        (NewFuzzerEngine (demo_source 2) 1000 (demo_config 2)))
     = run_trace (FuzzEngine_Run_rounds demo_load (\<lambda>i. 2000 + 7 * i)
        (NewFuzzerEngine (demo_source 2) 2000 (demo_config 2)))
   \<and> run_trace (FuzzEngine_Run_rounds demo_load (\<lambda>i. 1000 + i)
        (NewFuzzerEngine (demo_source 2) 1000 (demo_config 2)))
     = Inr [(2, [2, 2, 2, 2, 2, 2, 2, 2, 2, 2, 2, 2, 2, 2, 2]),
            (2, [2, 2, 2, 2, 2, 2, 2, 2, 2, 2, 2, 2, 2, 2, 2, 2])]"
proof -
  have s: "Seed (demo_config 2) \<noteq> 0" by (simp add: demo_config_def)
  have e: "run_trace (FuzzEngine_Run_rounds demo_load (\<lambda>i. 1000 + i)
        (NewFuzzerEngine (demo_source 2) 1000 (demo_config 2)))
     = Inr [(2, [2, 2, 2, 2, 2, 2, 2, 2, 2, 2, 2, 2, 2, 2, 2]),
            (2, [2, 2, 2, 2, 2, 2, 2, 2, 2, 2, 2, 2, 2, 2, 2, 2])]"
    by code_simp
  from run_deterministic [of "demo_config 2" demo_load "\<lambda>i. 1000 + i" "demo_source 2" 1000
      "\<lambda>i. 2000 + 7 * i" 2000, OF s] s e
  show ?thesis by simp
qed

lemma Run_rounds_count:
  assumes "L (TargetPath cfg) (ModuleName cfg) = Inr m"
  shows "\<exists>rds f1. FuzzEngine_Run_rounds L clock (NewFuzzerEngine src t0 cfg) = Inr (rds, f1)
           \<and> FuzzEngine_Run L clock (NewFuzzerEngine src t0 cfg) = Inr (summary f1)
           \<and> int (length rds) = max 0 (FuzzCount cfg)
           \<and> TotalTests (summary f1) = max 0 (FuzzCount cfg)
           \<and> list_all (\<lambda>rd. answer rd = CosmosModule_ExecuteFuzz m (generated rd)) rds
           \<and> (list_all succeeded rds \<longrightarrow> Failed (summary f1) = 0)"
proof -
  from loop_total [OF New_ready, of "CosmosModule_ExecuteFuzz m" clock 0 "FuzzCount cfg" src t0 cfg]
  obtain rds f1 where
    l: "FuzzEngine_loop (CosmosModule_ExecuteFuzz m) clock 0 (FuzzCount cfg)
          (NewFuzzerEngine src t0 cfg) = Inr (rds, f1)" and
    a: "int (length rds) = max 0 (FuzzCount cfg)" and
    b: "TotalTests (summary f1) = max 0 (FuzzCount cfg)" and
    x: "list_all (\<lambda>rd. answer rd = CosmosModule_ExecuteFuzz m (generated rd)) rds" and
    c: "list_all succeeded rds \<longrightarrow> Failed (summary f1) = 0"
    by (auto simp: New_summary FuzzSummary0_def)
  have r: "FuzzEngine_Run_rounds L clock (NewFuzzerEngine src t0 cfg) = Inr (rds, f1)"
    using assms l by (simp add: FuzzEngine_Run_rounds_def New_config)
  then have "FuzzEngine_Run L clock (NewFuzzerEngine src t0 cfg) = Inr (summary f1)"
    by (simp add: FuzzEngine_Run_def)
  with r a b c x show ?thesis by blast
qed

text \<open>
  Claim C7. For a newly constructed engine and a number of rounds \<open>FuzzCount\<close> (not
  negative): when the load of the target succeeds, \<open>Run\<close> returns a summary (no round
  panics), it has performed exactly \<open>FuzzCount\<close> rounds and \<open>TotalTests\<close> equals
  \<open>FuzzCount\<close>, whatever the rounds found. Each round's answer is the target's answer
  to the generated input, and if every answer is \<open>success\<close> with a \<open>nil\<close> error,
  \<open>Failed\<close> is 0.
\<close>

theorem run_total_tests:
  assumes "L (TargetPath cfg) (ModuleName cfg) = Inr m" and "0 \<le> FuzzCount cfg"
  shows "\<exists>rds f1. FuzzEngine_Run_rounds L clock (NewFuzzerEngine src t0 cfg) = Inr (rds, f1)
           \<and> FuzzEngine_Run L clock (NewFuzzerEngine src t0 cfg) = Inr (summary f1)
           \<and> int (length rds) = FuzzCount cfg
           \<and> TotalTests (summary f1) = FuzzCount cfg
           \<and> list_all (\<lambda>rd. answer rd = CosmosModule_ExecuteFuzz m (generated rd)) rds
           \<and> (list_all succeeded rds \<longrightarrow> Failed (summary f1) = 0)"
  using Run_rounds_count [of L cfg m clock src t0, OF assms(1)] assms(2) by (simp add: max_def)

theorem run_total_tests_witness:
  "demo_load (TargetPath (demo_config 2)) (ModuleName (demo_config 2))
     = Inr \<lparr>Path = ''x/bank'', Name = ''bank'', Handlers = [''MsgSend''], StateTypes = []\<rparr>
   \<and> 0 \<le> FuzzCount (demo_config 2)
   \<and> (\<exists>rds f1. FuzzEngine_Run_rounds demo_load (\<lambda>i. 0)
                   (NewFuzzerEngine (demo_source 0) 0 (demo_config 2)) = Inr (rds, f1)
         \<and> FuzzEngine_Run demo_load (\<lambda>i. 0)
                   (NewFuzzerEngine (demo_source 0) 0 (demo_config 2)) = Inr (summary f1)
         \<and> length rds = 2 \<and> TotalTests (summary f1) = 2
         \<and> list_all succeeded rds \<and> Failed (summary f1) = 0)"
proof -
  have h: "demo_load (TargetPath (demo_config 2)) (ModuleName (demo_config 2))
     = Inr \<lparr>Path = ''x/bank'', Name = ''bank'', Handlers = [''MsgSend''], StateTypes = []\<rparr>"
    by (simp add: demo_load_def demo_config_def)
  have n: "0 \<le> FuzzCount (demo_config 2)"
    by (simp add: demo_config_def)
  from run_total_tests [of demo_load "demo_config 2" _ "\<lambda>i. 0" "demo_source 0" 0, OF h n]
  obtain rds f1 where
    r: "FuzzEngine_Run_rounds demo_load (\<lambda>i. 0)
          (NewFuzzerEngine (demo_source 0) 0 (demo_config 2)) = Inr (rds, f1)" and
    s: "FuzzEngine_Run demo_load (\<lambda>i. 0)
          (NewFuzzerEngine (demo_source 0) 0 (demo_config 2)) = Inr (summary f1)" and
    a: "int (length rds) = FuzzCount (demo_config 2)" and
    b: "TotalTests (summary f1) = FuzzCount (demo_config 2)" and
    c: "list_all succeeded rds \<longrightarrow> Failed (summary f1) = 0"
    by blast
  have "(case FuzzEngine_Run_rounds demo_load (\<lambda>i. 0)
                (NewFuzzerEngine (demo_source 0) 0 (demo_config 2)) of
           Inl e \<Rightarrow> False | Inr (rds, f) \<Rightarrow> list_all succeeded rds)"
    by code_simp
  with r have d: "list_all succeeded rds" by simp
  from a b have "length rds = 2" "TotalTests (summary f1) = 2"
    by (simp_all add: demo_config_def)
  with h n r s c d show ?thesis by blast
qed

text \<open>
  Claim C9. Every verdict returned by a validator has \<open>Failed\<close> set and exactly one of
  \<open>StateInconsistency\<close>, \<open>ConsensusFailure\<close> and \<open>Crashed\<close>; and the summary
  returned by a run of a newly constructed engine satisfies
  \<open>Failed = StateInconsistencies + ConsensusFailures + Crashes\<close>.
\<close>

theorem verdict_flags_and_summary:
  "(ValidateOutput mu now out e = Some v \<longrightarrow> FuzzResult.Failed v \<and> one_flag v)
   \<and> (FuzzEngine_Run L clock (NewFuzzerEngine src t0 cfg) = Inr s \<longrightarrow>
        Failed s = StateInconsistencies s + ConsensusFailures s + Crashes s)"
proof -
  have a: "ValidateOutput mu now out e = Some v \<longrightarrow> FuzzResult.Failed v \<and> one_flag v"
    using ValidateOutput_flags by blast
  have b: "Failed s = StateInconsistencies s + ConsensusFailures s + Crashes s"
    if "FuzzEngine_Run L clock (NewFuzzerEngine src t0 cfg) = Inr s"
  proof -
    from that obtain m rds f1 where
      l: "FuzzEngine_loop (CosmosModule_ExecuteFuzz m) clock 0 (FuzzCount cfg)
            (NewFuzzerEngine src t0 cfg) = Inr (rds, f1)" and s: "s = summary f1"
      by (auto simp: FuzzEngine_Run_def FuzzEngine_Run_rounds_def New_config split: sum.splits)
    have "balanced (summary (NewFuzzerEngine src t0 cfg))"
      by (simp add: New_summary balanced_def FuzzSummary0_def)
    from loop_balanced [OF l this] s show ?thesis by (simp add: balanced_def)
  qed
  from a b show ?thesis by blast
qed

theorem verdict_flags_and_summary_witness:
  "ValidateOutput BoundaryValueMutator 0 None (Some ''input too short'')
     = Some \<lparr>ID = ''boundary_0'', Input = None, ErrorMessage = ''input too short'',
              Failed = True, StateInconsistency = False, ConsensusFailure = False,
              Crashed = True\<rparr>
   \<and> one_flag \<lparr>ID = ''boundary_0'', Input = (None :: byte list option),
         ErrorMessage = ''input too short'',
         Failed = True, StateInconsistency = False, ConsensusFailure = False, Crashed = True\<rparr>
   \<and> FuzzEngine_Run demo_load (\<lambda>i. 0) (NewFuzzerEngine (demo_source 1) 0 (demo_config 2))
       = Inr \<lparr>TotalTests = 2, Failed = 2, StateInconsistencies = 0, ConsensusFailures = 0,
               Crashes = 2\<rparr>
   \<and> (2 :: int) = 0 + 0 + 2"
proof -
  have v: "ValidateOutput BoundaryValueMutator 0 None (Some ''input too short'')
     = Some \<lparr>ID = ''boundary_0'', Input = None, ErrorMessage = ''input too short'',
              Failed = True, StateInconsistency = False, ConsensusFailure = False,
              Crashed = True\<rparr>"
    by (simp add: BoundaryValueMutator_ValidateOutput_def FuzzResult0_def
        string_of_int_def string_of_nat.simps digit_char_def)
  have r: "FuzzEngine_Run demo_load (\<lambda>i. 0) (NewFuzzerEngine (demo_source 1) 0 (demo_config 2))
       = Inr \<lparr>TotalTests = 2, Failed = 2, StateInconsistencies = 0, ConsensusFailures = 0,
               Crashes = 2\<rparr>"
    by code_simp
  from verdict_flags_and_summary [of BoundaryValueMutator 0 None "Some ''input too short''"
      "\<lparr>ID = ''boundary_0'', Input = None, ErrorMessage = ''input too short'',
              Failed = True, StateInconsistency = False, ConsensusFailure = False,
              Crashed = True\<rparr>" demo_load "\<lambda>i. 0" "demo_source 1" 0 "demo_config 2"
      "\<lparr>TotalTests = 2, Failed = 2, StateInconsistencies = 0, ConsensusFailures = 0,
               Crashes = 2\<rparr>"] v r
  show ?thesis by simp
qed

subsection \<open>The corpus generator\<close>

lemma differing_Cons [simp]:
  "differing (x # xs) (y # ys) = (if x \<noteq> y then 1 else 0) + differing xs ys"
  by (simp add: differing_def)

lemma differing_Nil [simp]: "differing [] ys = 0" "differing xs [] = 0"
  by (simp_all add: differing_def)

lemma differing_same [simp]: "differing xs xs = 0"
  by (induction xs) simp_all

lemma differing_update: "differing xs (xs[i := v]) \<le> 1"
proof (induction xs arbitrary: i)
  case Nil
  then show ?case by simp
next
  case (Cons x xs)
  then show ?case by (cases i) simp_all
qed

lemma differing_triangle:
  "length xs = length ys \<Longrightarrow> length ys = length zs \<Longrightarrow>
   differing xs zs \<le> differing xs ys + differing ys zs"
  by (induction xs ys zs rule: list_induct3) auto

lemma mutate_loop_differing:
  "mutate_loop i mutations b r = Inr (b1, r1) \<Longrightarrow>
   length b1 = length b \<and> differing b b1 \<le> mutations - i"
proof (induction i mutations b r rule: mutate_loop.induct)
  case (1 i mutations baseCase r)
  show ?case
  proof (cases "i < mutations")
    case False
    with "1.prems" show ?thesis by (simp add: mutate_loop.simps)
  next
    case True
    obtain pos r2 where p: "Intn (length baseCase) r = (pos, r2)"
      by (cases "Intn (length baseCase) r") auto
    obtain v r3 where v: "Intn 256 r2 = (v, r3)" by (cases "Intn 256 r2") auto
    from "1.prems" True p v have l: "length baseCase \<noteq> 0" and
      n: "mutate_loop (i + 1) mutations (baseCase[pos := of_nat v]) r3 = Inr (b1, r1)"
      by (subst (asm) mutate_loop.simps, simp split: if_splits)+
    from "1.IH" [OF True l p [symmetric] refl v [symmetric] refl n]
    have a: "length b1 = length baseCase"
      and b: "differing (baseCase[pos := of_nat v]) b1 \<le> mutations - (i + 1)" by simp_all
    have "differing baseCase b1
            \<le> differing baseCase (baseCase[pos := of_nat v]) + differing (baseCase[pos := of_nat v]) b1"
      by (rule differing_triangle) (simp_all add: a)
    with b differing_update [of baseCase pos "of_nat v"] True a show ?thesis by simp
  qed
qed

lemma copy_same_length: "length dst = length src \<Longrightarrow> copy_bytes dst src = src"
  by (simp add: copy_bytes_def)

lemma specialCases_length: "length specialCases = 7"
  by (simp add: specialCases_def)

lemma baseCase_raw:
  assumes "fst (Intn 100 r) < 75"
  shows "\<exists>b r1. SpecialCasesMutator_baseCase specialCases r = Inr (b, r1) \<and> b \<in> set specialCases"
proof -
  obtain p r1 where p: "Intn 100 r = (p, r1)" by (cases "Intn 100 r") auto
  obtain k r2 where k: "Intn (length specialCases) r1 = (k, r2)"
    by (cases "Intn (length specialCases) r1") auto
  have "k < length specialCases"
    using Intn_lt [of "length specialCases" r1] k by (simp add: specialCases_length)
  then have "specialCases ! k \<in> set specialCases" by simp
  then show ?thesis using assms p k
    by (simp add: SpecialCasesMutator_baseCase_def specialCases_length)
qed

lemma baseCase_mutated:
  assumes "\<not> fst (Intn 100 r) < 75"
  shows "\<exists>a b base r1. a < 7 \<and> b < 7
           \<and> SpecialCasesMutator_baseCase specialCases r = Inr (base, r1)
           \<and> point_mutated 5
                (copy_bytes (replicate (length (specialCases ! a)) 0) (specialCases ! b)) base"
proof -
  obtain p r1 where p: "Intn 100 r = (p, r1)" by (cases "Intn 100 r") auto
  obtain a r2 where a: "Intn (length specialCases) r1 = (a, r2)"
    by (cases "Intn (length specialCases) r1") auto
  obtain b r3 where b: "Intn (length specialCases) r2 = (b, r3)"
    by (cases "Intn (length specialCases) r2") auto
  obtain m r4 where m: "Intn 5 r3 = (m, r4)" by (cases "Intn 5 r3") auto
  have al: "a < 7" using Intn_lt [of 7 r1] a by (simp add: specialCases_length)
  have bl: "b < 7" using Intn_lt [of 7 r2] b by (simp add: specialCases_length)
  have ml: "m < 5" using Intn_lt [of 5 r3] m by simp
  define buf where "buf = copy_bytes (replicate (length (specialCases ! a)) 0) (specialCases ! b)"
  have "specialCases ! a \<in> set specialCases" using al by (simp add: specialCases_length)
  then have "specialCases ! a \<noteq> []" by (auto simp: specialCases_def)
  then have "buf \<noteq> []" by (auto simp: buf_def copy_bytes_def min_def)
  from mutate_loop_total [OF this, of 0 "1 + m" r4] obtain base r5 where
    l: "mutate_loop 0 (1 + m) buf r4 = Inr (base, r5)" by blast
  from mutate_loop_differing [OF l] ml have "point_mutated 5 buf base"
    by (simp add: point_mutated_def)
  moreover have "SpecialCasesMutator_baseCase specialCases r = Inr (base, r5)"
    using assms p a b m l by (simp add: SpecialCasesMutator_baseCase_def buf_def specialCases_length)
  ultimately show ?thesis using al bl unfolding buf_def by blast
qed

lemma Generate_padding:
  assumes "SpecialCasesMutator_baseCase cs r = Inr (base, r1)"
  shows "\<exists>padding r2. SpecialCasesMutator_GenerateFuzzInput cs r = Inr (base @ padding, r2)
           \<and> length padding < 100"
proof -
  obtain n r2 where n: "Intn 100 r1 = (n, r2)" by (cases "Intn 100 r1") auto
  have "n < 100" using Intn_lt [of 100 r1] n by simp
  then show ?thesis using assms n Read_length [of n r2]
    by (auto simp: SpecialCasesMutator_GenerateFuzzInput_def split: prod.splits)
qed

text \<open>
  Claim C4, at the code. In the mutating branch the generator draws one entry for the
  length of the buffer and another for the bytes copied into it. At \<open>slip_rng\<close> the
  length is that of entry 0 (8 bytes) and the bytes are those of entry 2 (9 bytes): what
  precedes the padding is entry 2 cut to 8 bytes with one byte changed, which is neither a
  corpus entry nor a copy of one with up to five bytes changed.
\<close>

theorem corpus_mutation_truncates:
  "map_sum id fst (SpecialCasesMutator_baseCase specialCases slip_rng) = Inr [3, 1, 9, 0, 0, 1, 0, 0]
   \<and> map_sum id fst (SpecialCasesMutator_GenerateFuzzInput specialCases slip_rng)
       = Inr [3, 1, 9, 0, 0, 1, 0, 0]
   \<and> \<not> corpus_derived specialCases [3, 1, 9, 0, 0, 1, 0, 0]
   \<and> specialCases ! 2 = [3, 1, 0, 0, 0, 1, 0, 0, 0]"
  by code_simp

subsection \<open>The history slice and the verdicts that hold it\<close>

lemma slice_bytes_length: "slice_ok h s \<Longrightarrow> length (slice_bytes h s) = len s"
  by (auto simp: slice_ok_def slice_bytes_def)

lemma take_drop_update_beyond:
  "off + n \<le> i \<Longrightarrow> take n (drop off (xs[i := x])) = take n (drop off xs)"
  by (simp add: drop_update_swap)

lemma take_drop_snoc:
  "off + n < length xs \<Longrightarrow>
   take (Suc n) (drop off (xs[off + n := x])) = take n (drop off xs) @ [x]"
  by (simp add: drop_update_swap take_Suc_conv_app_nth)

lemma make_slice_ok:
  "make_slice n h = (s, h1) \<Longrightarrow> slice_ok h1 s \<and> slice_bytes h1 s = replicate n 0"
  by (auto simp: make_slice_def slice_ok_def slice_bytes_def)

lemma append_byte_ok:
  assumes "slice_ok h s" and "append_byte grow s x h = (s1, h1)"
  shows "slice_ok h1 s1 \<and> slice_bytes h1 s1 = slice_bytes h s @ [x] \<and> len s1 = len s + 1"
proof (cases "len s < cap s")
  case True
  with assms show ?thesis
    by (auto simp: append_byte_def slice_ok_def slice_bytes_def take_drop_snoc)
next
  case False
  with assms show ?thesis
    by (auto simp: append_byte_def slice_ok_def slice_bytes_def Let_def)
qed

lemma append_byte_frame:
  assumes "slice_ok h s" and "array_id v < lim h" and "ends_before v s"
    and "append_byte grow s x h = (s1, h1)"
  shows "slice_bytes h1 v = slice_bytes h v \<and> array_id v < lim h1 \<and> ends_before v s1"
proof (cases "len s < cap s")
  case True
  with assms show ?thesis
    by (auto simp: append_byte_def slice_ok_def slice_bytes_def ends_before_def
        take_drop_update_beyond)
next
  case False
  with assms show ?thesis
    by (auto simp: append_byte_def slice_ok_def slice_bytes_def ends_before_def Let_def)
qed

lemma reslice_ok:
  assumes "slice_ok h s" and "k \<le> len s"
  shows "slice_ok h (reslice_from k s) \<and> slice_bytes h (reslice_from k s) = drop k (slice_bytes h s)
         \<and> len (reslice_from k s) = len s - k"
  using assms
  by (auto simp: reslice_from_def slice_ok_def slice_bytes_def drop_take add.commute)

lemma reslice_frame: "k \<le> len s \<Longrightarrow> ends_before v s \<Longrightarrow> ends_before v (reslice_from k s)"
  by (auto simp: reslice_from_def ends_before_def)

lemma Generate_mem_step:
  assumes ok: "slice_ok h cur"
    and g: "StatefulMutator_GenerateFuzzInput_mem grow cur h r = (input, cur1, h1, r1)"
  shows "slice_ok h1 cur1
       \<and> StatefulMutator_GenerateFuzzInput (slice_bytes h cur) r = (input, slice_bytes h1 cur1, r1)
       \<and> (array_id v < lim h \<and> ends_before v cur \<longrightarrow>
            slice_bytes h1 v = slice_bytes h v \<and> array_id v < lim h1 \<and> ends_before v cur1)"
proof -
  obtain op ra where op: "Intn 4 r = (op, ra)" by (cases "Intn 4 r") auto
  obtain header rb where hd: "Read 4 ra = (header, rb)" by (cases "Read 4 ra") auto
  obtain n rc where n: "Intn 92 rb = (n, rc)" by (cases "Intn 92 rb") auto
  obtain extra rd where ex: "Read (8 + n) rc = (extra, rd)" by (cases "Read (8 + n) rc") auto
  define b :: byte where "b = of_nat op"
  obtain c2 h2 where a: "append_byte grow cur b h = (c2, h2)"
    by (cases "append_byte grow cur b h") auto
  from append_byte_ok [OF ok a]
  have ok2: "slice_ok h2 c2" and by2: "slice_bytes h2 c2 = slice_bytes h cur @ [b]"
    and l2: "len c2 = len cur + 1" by simp_all
  have ln: "length (slice_bytes h cur) = len cur" using ok by (rule slice_bytes_length)
  define c3 where "c3 = (if len c2 > 64 then reslice_from (len c2 - 64) c2 else c2)"
  have ok3: "slice_ok h2 c3"
    and by3: "slice_bytes h2 c3
      = (if 64 < length (slice_bytes h cur @ [b])
         then drop (length (slice_bytes h cur @ [b]) - 64) (slice_bytes h cur @ [b])
         else slice_bytes h cur @ [b])"
    using reslice_ok [OF ok2, of "len c2 - 64"] ok2 by2 l2 ln
    by (auto simp: c3_def)
  have res: "input = (b # header) @ (if len cur > 0 then slice_bytes h cur else []) @ extra
             \<and> cur1 = c3 \<and> h1 = h2 \<and> r1 = rd"
    using g op hd n ex a
    by (auto simp: StatefulMutator_GenerateFuzzInput_mem_def b_def c3_def Let_def)
  have val: "StatefulMutator_GenerateFuzzInput (slice_bytes h cur) r = (input, slice_bytes h1 cur1, r1)"
    using op hd n ex res by3 ln
    by (auto simp: StatefulMutator_GenerateFuzzInput_def b_def Let_def)
  have fr: "slice_bytes h1 v = slice_bytes h v \<and> array_id v < lim h1 \<and> ends_before v cur1"
    if "array_id v < lim h" "ends_before v cur"
  proof -
    from append_byte_frame [OF ok that a]
    have "slice_bytes h2 v = slice_bytes h v" "array_id v < lim h2" "ends_before v c2" by simp_all
    moreover have "ends_before v c3"
      using reslice_frame [of "len c2 - 64" c2 v] \<open>ends_before v c2\<close> by (simp add: c3_def)
    ultimately show ?thesis using res by simp
  qed
  from ok3 res val fr show ?thesis by blast
qed

lemma calls_mem_steps:
  "slice_ok h cur \<Longrightarrow> StatefulMutator_calls_mem grow rs cur h = (cur1, h1) \<Longrightarrow>
   slice_ok h1 cur1
   \<and> slice_bytes h1 cur1 = StatefulMutator_calls rs (slice_bytes h cur)
   \<and> (array_id v < lim h \<and> ends_before v cur \<longrightarrow> slice_bytes h1 v = slice_bytes h v)"
proof (induction rs arbitrary: cur h)
  case Nil
  then show ?case by simp
next
  case (Cons r rs)
  obtain input c2 h2 r2 where
    g: "StatefulMutator_GenerateFuzzInput_mem grow cur h r = (input, c2, h2, r2)"
    by (cases "StatefulMutator_GenerateFuzzInput_mem grow cur h r") auto
  from Generate_mem_step [OF Cons.prems(1) g, of v]
  have ok2: "slice_ok h2 c2"
    and val: "StatefulMutator_GenerateFuzzInput (slice_bytes h cur) r = (input, slice_bytes h2 c2, r2)"
    and fr: "array_id v < lim h \<and> ends_before v cur \<longrightarrow>
            slice_bytes h2 v = slice_bytes h v \<and> array_id v < lim h2 \<and> ends_before v c2"
    by simp_all
  from Cons.prems(2) g have rest: "StatefulMutator_calls_mem grow rs c2 h2 = (cur1, h1)" by simp
  from Cons.IH [OF ok2 rest] val fr show ?case by auto
qed

lemma ends_before_self: "ends_before s s"
  by (simp add: ends_before_def)

lemma Stateful_verdict_input:
  "StatefulMutator_ValidateOutput cur now out e = Some v \<Longrightarrow> Input v = Some cur"
  by (auto simp: StatefulMutator_ValidateOutput_def FuzzResult0_def split: if_splits)

lemma demo_history_slice: "fst demo_history = \<lparr>array_id = 1, offset = 0, len = 1, cap = 8\<rparr>"
  by code_simp

lemma demo_later_slice: "fst demo_later = \<lparr>array_id = 1, offset = 0, len = 2, cap = 8\<rparr>"
  by code_simp

lemma demo_verdict:
  "StatefulMutator_ValidateOutput (fst demo_history) 0 (Some ''state_inconsistent'') None
     = Some \<lparr>ID = ''stateful_0'', Input = Some \<lparr>array_id = 1, offset = 0, len = 1, cap = 8\<rparr>,
              ErrorMessage = ''State transition inconsistency detected'',
              Failed = True, StateInconsistency = True, ConsensusFailure = False,
              Crashed = False\<rparr>"
  by (simp add: demo_history_slice StatefulMutator_ValidateOutput_def nonempty_def FuzzResult0_def
      string_of_int_def string_of_nat.simps digit_char_def)

text \<open>
  Claim C8, as the code has it. A verdict of the stateful validator holds in \<open>Input\<close>
  the slice \<open>m.currentState\<close> itself, not a copy. The bytes seen through it are the
  history at the moment of the report (the first bytes of the inputs generated so far, the
  last 64 of them), and they stay the same through any later calls of the generator, which
  write past the end of that window or into a fresh array, while the mutator's own history
  moves on.
\<close>

theorem verdict_input_unchanged:
  assumes "NewStatefulMutator_mem h0 = (c0, h1)"
    and "StatefulMutator_calls_mem grow rs1 c0 h1 = (cur, h)"
    and "StatefulMutator_ValidateOutput cur now out e = Some v"
    and "StatefulMutator_calls_mem grow rs2 cur h = (cur2, h2)"
  shows "Input v = Some cur
       \<and> slice_bytes h cur = StatefulMutator_calls rs1 []
       \<and> slice_bytes h2 cur = slice_bytes h cur
       \<and> slice_bytes h2 cur2 = StatefulMutator_calls (rs1 @ rs2) []"
proof -
  from assms(1) have ok0: "slice_ok h1 c0" and b0: "slice_bytes h1 c0 = []"
    using make_slice_ok [of 0 h0 c0 h1] by (simp_all add: NewStatefulMutator_mem_def)
  from calls_mem_steps [OF ok0 assms(2)] b0
  have ok: "slice_ok h cur" and hist: "slice_bytes h cur = StatefulMutator_calls rs1 []"
    by simp_all
  have "array_id cur < lim h" using ok by (simp add: slice_ok_def)
  with calls_mem_steps [OF ok assms(4), of cur] ends_before_self
  have same: "slice_bytes h2 cur = slice_bytes h cur"
    and later: "slice_bytes h2 cur2 = StatefulMutator_calls rs2 (slice_bytes h cur)"
    by simp_all
  have app: "\<And>cs. StatefulMutator_calls (rs1 @ rs2) cs
               = StatefulMutator_calls rs2 (StatefulMutator_calls rs1 cs)"
    by (induction rs1) (auto split: prod.splits)
  from Stateful_verdict_input [OF assms(3)] hist same later app show ?thesis by simp
qed

theorem verdict_input_unchanged_witness:
  "NewStatefulMutator_mem empty_store
     = (fst (NewStatefulMutator_mem empty_store), snd (NewStatefulMutator_mem empty_store))
   \<and> StatefulMutator_calls_mem go_grow [demo_source 1 0]
        (fst (NewStatefulMutator_mem empty_store)) (snd (NewStatefulMutator_mem empty_store))
     = (fst demo_history, snd demo_history)
   \<and> StatefulMutator_ValidateOutput (fst demo_history) 0 (Some ''state_inconsistent'') None
     = Some \<lparr>ID = ''stateful_0'', Input = Some \<lparr>array_id = 1, offset = 0, len = 1, cap = 8\<rparr>,
              ErrorMessage = ''State transition inconsistency detected'',
              Failed = True, StateInconsistency = True, ConsensusFailure = False,
              Crashed = False\<rparr>
   \<and> StatefulMutator_calls_mem go_grow [demo_source 1 0] (fst demo_history) (snd demo_history)
     = (fst demo_later, snd demo_later)
   \<and> fst demo_history = \<lparr>array_id = 1, offset = 0, len = 1, cap = 8\<rparr>
   \<and> slice_bytes (snd demo_history) (fst demo_history) = [1]
   \<and> slice_bytes (snd demo_later) (fst demo_history) = [1]
   \<and> slice_bytes (snd demo_later) (fst demo_later) = [1, 1]"
proof -
  have a: "NewStatefulMutator_mem empty_store
     = (fst (NewStatefulMutator_mem empty_store), snd (NewStatefulMutator_mem empty_store))"
    by simp
  have b: "StatefulMutator_calls_mem go_grow [demo_source 1 0]
        (fst (NewStatefulMutator_mem empty_store)) (snd (NewStatefulMutator_mem empty_store))
     = (fst demo_history, snd demo_history)"
    by (simp only: demo_history_def case_prod_unfold prod.collapse)
  have d: "StatefulMutator_calls_mem go_grow [demo_source 1 0] (fst demo_history) (snd demo_history)
     = (fst demo_later, snd demo_later)"
    by (simp only: demo_later_def case_prod_unfold prod.collapse)
  have e: "StatefulMutator_calls [demo_source 1 0] [] = [1]"
    "StatefulMutator_calls ([demo_source 1 0] @ [demo_source 1 0]) [] = [1, 1]"
    by code_simp+
  from verdict_input_unchanged [OF a b demo_verdict d] a b d e demo_verdict demo_history_slice
  show ?thesis by simp
qed

text \<open>
  Claim C8 as stated fails: the verdict's \<open>Input\<close> is no copy. After one call of the
  generator the history is the window of length 1 on array 1; the verdict reported then
  holds that same window; the next call of the generator appends in place, writing byte 1
  of array 1, the array the verdict refers to.
\<close>

theorem verdict_input_shares_array:
  "fst demo_history = \<lparr>array_id = 1, offset = 0, len = 1, cap = 8\<rparr>
   \<and> StatefulMutator_ValidateOutput (fst demo_history) 0 (Some ''state_inconsistent'') None
     = Some \<lparr>ID = ''stateful_0'', Input = Some \<lparr>array_id = 1, offset = 0, len = 1, cap = 8\<rparr>,
              ErrorMessage = ''State transition inconsistency detected'',
              Failed = True, StateInconsistency = True, ConsensusFailure = False,
              Crashed = False\<rparr>
   \<and> fst demo_later = \<lparr>array_id = 1, offset = 0, len = 2, cap = 8\<rparr>
   \<and> arrays (snd demo_history) 1 = [1, 0, 0, 0, 0, 0, 0, 0]
   \<and> arrays (snd demo_later) 1 = [1, 1, 0, 0, 0, 0, 0, 0]"
proof -
  have "arrays (snd demo_history) 1 = [1, 0, 0, 0, 0, 0, 0, 0]"
    "arrays (snd demo_later) 1 = [1, 1, 0, 0, 0, 0, 0, 0]"
    by code_simp+
  with demo_history_slice demo_later_slice demo_verdict show ?thesis by simp
qed

end
